theory Spec2Isabelle
  imports Complex_Main "HOL-Library.Log_Nat"
begin

text \<open>
  A model of the video player component of \<open>src/VideoPlayer.js\<close>: its state, the handlers
  of the video's events, the auto-hide timer of the controls, the timer text, and the pan
  responders of the seek bar and of the volume slider. Rendering and the animations
  themselves are not modelled; starting an animation is recorded as a call.
\<close>

section \<open>JavaScript numbers\<close>

text \<open>
  The player computes with JavaScript numbers. A finite number is modelled by its rational
  value, next to the three special values of IEEE arithmetic, so that a division by zero
  has the result the program sees (\<open>NaN\<close> or an infinity) instead of HOL's \<open>x / 0 = 0\<close>.
  The sign of zero is not modelled. The operations below compute the exact result; where
  the digits that the program shows depend on the rounding to a double (in the timer
  text), the result is rounded explicitly with \<open>jround\<close>.

  \<open>Undefined\<close> is the value \<open>undefined\<close>, which a numeric field holds when an event
  carries no value for it and which the width of the seek track has before the layout.
  Arithmetic turns it into \<open>NaN\<close>, every comparison with it is false, and a parameter
  with the default value 0 replaces it by 0.
\<close>

datatype jsnum = Fin rat | PInf | NInf | NaN | Undefined

definition default0 :: "jsnum \<Rightarrow> jsnum" where
  "default0 v = (if v = Undefined then Fin 0 else v)"

fun jneg :: "jsnum \<Rightarrow> jsnum" where
  "jneg (Fin a) = Fin (- a)"
| "jneg PInf = NInf"
| "jneg NInf = PInf"
| "jneg NaN = NaN"
| "jneg Undefined = NaN"

fun jadd :: "jsnum \<Rightarrow> jsnum \<Rightarrow> jsnum" where
  "jadd (Fin a) (Fin b) = Fin (a + b)"
| "jadd (Fin a) PInf = PInf"
| "jadd (Fin a) NInf = NInf"
| "jadd PInf (Fin b) = PInf"
| "jadd PInf PInf = PInf"
| "jadd NInf (Fin b) = NInf"
| "jadd NInf NInf = NInf"
| "jadd PInf NInf = NaN"
| "jadd NInf PInf = NaN"
| "jadd NaN b = NaN"
| "jadd a NaN = NaN"
| "jadd Undefined b = NaN"
| "jadd a Undefined = NaN"

definition jsub :: "jsnum \<Rightarrow> jsnum \<Rightarrow> jsnum" where
  "jsub a b = jadd a (jneg b)"

fun jmul :: "jsnum \<Rightarrow> jsnum \<Rightarrow> jsnum" where
  "jmul (Fin a) (Fin b) = Fin (a * b)"
| "jmul (Fin a) PInf = (if a = 0 then NaN else if 0 < a then PInf else NInf)"
| "jmul (Fin a) NInf = (if a = 0 then NaN else if 0 < a then NInf else PInf)"
| "jmul PInf (Fin b) = (if b = 0 then NaN else if 0 < b then PInf else NInf)"
| "jmul NInf (Fin b) = (if b = 0 then NaN else if 0 < b then NInf else PInf)"
| "jmul PInf PInf = PInf"
| "jmul PInf NInf = NInf"
| "jmul NInf PInf = NInf"
| "jmul NInf NInf = PInf"
| "jmul NaN b = NaN"
| "jmul a NaN = NaN"
| "jmul Undefined b = NaN"
| "jmul a Undefined = NaN"

fun jdiv :: "jsnum \<Rightarrow> jsnum \<Rightarrow> jsnum" where
  "jdiv (Fin a) (Fin b) =
     (if b = 0 then (if a = 0 then NaN else if 0 < a then PInf else NInf)
      else Fin (a / b))"
| "jdiv (Fin a) PInf = Fin 0"
| "jdiv (Fin a) NInf = Fin 0"
| "jdiv PInf (Fin b) = (if 0 \<le> b then PInf else NInf)"
| "jdiv NInf (Fin b) = (if 0 \<le> b then NInf else PInf)"
| "jdiv PInf PInf = NaN"
| "jdiv PInf NInf = NaN"
| "jdiv NInf PInf = NaN"
| "jdiv NInf NInf = NaN"
| "jdiv NaN b = NaN"
| "jdiv a NaN = NaN"
| "jdiv Undefined b = NaN"
| "jdiv a Undefined = NaN"

definition trunc :: "rat \<Rightarrow> int" where
  "trunc x = (if 0 \<le> x then \<lfloor>x\<rfloor> else \<lceil>x\<rceil>)"

text \<open>The remainder operator \<open>%\<close>: the result has the sign of the dividend.\<close>

fun jmod :: "jsnum \<Rightarrow> jsnum \<Rightarrow> jsnum" where
  "jmod (Fin a) (Fin b) = (if b = 0 then NaN else Fin (a - b * of_int (trunc (a / b))))"
| "jmod (Fin a) PInf = Fin a"
| "jmod (Fin a) NInf = Fin a"
| "jmod PInf b = NaN"
| "jmod NInf b = NaN"
| "jmod NaN b = NaN"
| "jmod Undefined b = NaN"
| "jmod (Fin a) NaN = NaN"
| "jmod (Fin a) Undefined = NaN"

text \<open>Comparisons: every comparison with \<open>NaN\<close> or \<open>undefined\<close> is false.\<close>

fun jle :: "jsnum \<Rightarrow> jsnum \<Rightarrow> bool" where
  "jle (Fin a) (Fin b) = (a \<le> b)"
| "jle (Fin a) PInf = True"
| "jle (Fin a) NInf = False"
| "jle PInf (Fin b) = False"
| "jle PInf PInf = True"
| "jle PInf NInf = False"
| "jle NInf (Fin b) = True"
| "jle NInf PInf = True"
| "jle NInf NInf = True"
| "jle NaN b = False"
| "jle a NaN = False"
| "jle Undefined b = False"
| "jle a Undefined = False"

definition jlt :: "jsnum \<Rightarrow> jsnum \<Rightarrow> bool" where
  "jlt a b = (jle a b \<and> \<not> jle b a)"

definition jge :: "jsnum \<Rightarrow> jsnum \<Rightarrow> bool" where
  "jge a b = jle b a"

definition jgt :: "jsnum \<Rightarrow> jsnum \<Rightarrow> bool" where
  "jgt a b = jlt b a"

text \<open>\<open>Math.max\<close>, \<open>Math.min\<close> and \<open>Math.floor\<close>.\<close>

definition jmax :: "jsnum \<Rightarrow> jsnum \<Rightarrow> jsnum" where
  "jmax a b =
     (if a = NaN \<or> a = Undefined \<or> b = NaN \<or> b = Undefined then NaN
      else if jle a b then b else a)"

definition jmin :: "jsnum \<Rightarrow> jsnum \<Rightarrow> jsnum" where
  "jmin a b =
     (if a = NaN \<or> a = Undefined \<or> b = NaN \<or> b = Undefined then NaN
      else if jle a b then a else b)"

fun jfloor :: "jsnum \<Rightarrow> jsnum" where
  "jfloor (Fin a) = Fin (of_int \<lfloor>a\<rfloor>)"
| "jfloor PInf = PInf"
| "jfloor NInf = NInf"
| "jfloor NaN = NaN"
| "jfloor Undefined = NaN"

subsection \<open>Rounding to a double\<close>

text \<open>
  A double has a significand of 53 bits. \<open>ilog2 x\<close> is the binary exponent of a positive
  \<open>x\<close>, that is \<open>floor (log2 x)\<close>; \<open>quantum x\<close> is the distance between the doubles around
  \<open>x\<close>, which is \<open>2^(e - 52)\<close> for the exponent \<open>e\<close> of \<open>x\<close> and \<open>2^(-1074)\<close> in the subnormal
  range. \<open>nearest x\<close> is the multiple of the quantum nearest to \<open>x\<close>, the even one on a
  tie, and \<open>fl\<close> is the rounding of IEEE arithmetic: \<open>nearest\<close>, or an infinity from
  \<open>2^1024\<close> on. A rational is a double when rounding leaves it as it is.
\<close>

definition round_half_even :: "rat \<Rightarrow> int" where
  "round_half_even x =
     (let f = \<lfloor>x\<rfloor>; d = x - of_int f
      in if d < 1 / 2 then f else if 1 / 2 < d then f + 1 else if even f then f else f + 1)"

definition ilog2 :: "rat \<Rightarrow> int" where
  "ilog2 x = (if 1 \<le> x then bitlen \<lfloor>x\<rfloor> - 1 else - bitlen (\<lceil>1 / x\<rceil> - 1))"

definition quantum :: "rat \<Rightarrow> rat" where
  "quantum x = 2 powi (max (ilog2 \<bar>x\<bar>) (- 1022) - 52)"

definition nearest :: "rat \<Rightarrow> rat" where
  "nearest x = (if x = 0 then 0 else of_int (round_half_even (x / quantum x)) * quantum x)"

definition fl :: "rat \<Rightarrow> jsnum" where
  "fl x =
     (let y = nearest x
      in if 2 ^ 1024 \<le> y then PInf else if y \<le> - (2 ^ 1024) then NInf else Fin y)"

definition is_double :: "rat \<Rightarrow> bool" where
  "is_double x = (fl x = Fin x)"

fun jround :: "jsnum \<Rightarrow> jsnum" where
  "jround (Fin x) = fl x"
| "jround PInf = PInf"
| "jround NInf = NInf"
| "jround NaN = NaN"
| "jround Undefined = Undefined"

section \<open>Strings of numbers\<close>

definition digit :: "nat \<Rightarrow> char" where
  "digit n = ''0123456789'' ! n"

text \<open>The decimal digits of an integer that is not negative.\<close>

function decimal :: "int \<Rightarrow> string" where
  "decimal n =
     (if n < 10 then [digit (nat n)] else decimal (n div 10) @ [digit (nat (n mod 10))])"
  by pat_completeness auto
termination
  by (relation "measure nat") auto

declare decimal.simps [simp del]

text \<open>
  \<open>Number.prototype.toFixed(0)\<close>: a value that is not finite prints as its name; a finite
  one is rounded to the nearest integer (the larger one on a tie, after the sign has been
  taken off) and printed in decimal. From \<open>10^21\<close> on JavaScript switches to exponent
  notation, whose digits depend on the binary representation: that range is outside the
  model and yields \<open>None\<close>. So does \<open>undefined\<close>, on which the call would throw; the
  program calls \<open>toFixed\<close> on results of \<open>Math.floor\<close> only, which are numbers.
\<close>

fun toFixed0 :: "jsnum \<Rightarrow> string option" where
  "toFixed0 NaN = Some ''NaN''"
| "toFixed0 Undefined = None"
| "toFixed0 PInf = Some ''Infinity''"
| "toFixed0 NInf = Some ''-Infinity''"
| "toFixed0 (Fin x) =
     (if 10 ^ 21 \<le> \<bar>x\<bar> then None
      else Some ((if x < 0 then ''-'' else '''') @ decimal \<lfloor>\<bar>x\<bar> + 1 / 2\<rfloor>))"

text \<open>lodash's \<open>_.padStart(string, length, chars)\<close> with a one-character padding.\<close>

definition padStart :: "string \<Rightarrow> nat \<Rightarrow> char \<Rightarrow> string" where
  "padStart str n ch = replicate (n - length str) ch @ str"

section \<open>The component\<close>

text \<open>
  The properties the host passes in. A callback property is modelled by whether it is
  supplied; calling it is recorded in the trace of the component.
\<close>

record props_t =
  props_resizeMode :: string
  props_paused :: bool
  props_muted :: bool
  props_volume :: jsnum
  props_rate :: jsnum
  props_showOnStart :: bool
  props_controlTimeout :: "nat option"
  props_onLoad :: bool
  props_onProgress :: bool
  props_onError :: bool
  props_onEnd :: bool

text \<open>
  \<open>this.state\<close>. The last field, \<open>showRemainingTime\<close>, is read by \<open>formatTime\<close> but is
  not among the fields the constructor creates, and no code assigns it: it is \<open>None\<close>
  (\<open>undefined\<close>) in every state the component builds.
\<close>

record state_t =
  resizeMode :: string
  paused :: bool
  muted :: bool
  volume :: jsnum
  rate :: jsnum
  isFullscreen :: bool
  showTimeRemaining :: bool
  volumeTrackWidth :: jsnum
  lastScreenPress :: jsnum
  volumeFillWidth :: jsnum
  seekerFillWidth :: jsnum
  showControls :: bool
  volumePosition :: jsnum
  seekerPosition :: jsnum
  volumeOffset :: jsnum
  seekerOffset :: jsnum
  seeking :: bool
  loading :: bool
  currentTime :: jsnum
  error :: bool
  duration :: jsnum
  showRemainingTime :: "bool option"

text \<open>
  \<open>this.player\<close>. The constructor creates \<open>seekWidth\<close>, while every later access is to
  \<open>seekerWidth\<close>, which is \<open>undefined\<close> until the seek track is laid out.
  \<open>controlTimeout\<close> holds the handle of the timer armed last, \<open>None\<close> for \<open>null\<close>.
\<close>

record player_t =
  controlTimeoutDelay :: nat
  controlTimeout :: "nat option"
  volumeWidth :: jsnum
  iconOffset :: jsnum
  seekWidth :: jsnum
  seekerWidth :: jsnum

datatype effect =
    OnLoad jsnum
  | OnProgress jsnum
  | OnError
  | OnEnd
  | Seek jsnum
  | ShowControlAnimation
  | HideControlAnimation

text \<open>
  The component with the part of its environment it acts on: the timers of the event loop
  that are pending (handle and due time, in the order they were created), the clock in
  milliseconds, the next free timer handle, and the trace of calls that leave the
  component (host callbacks, \<open>seek\<close> on the video reference, animations). The handlers
  assign to the fields of \<open>this.state\<close> directly and then pass the same object to
  \<open>setState\<close>; a \<open>setState\<close> with a fresh object is applied at once as well.
\<close>

record VideoPlayer =
  props :: props_t
  state :: state_t
  player :: player_t
  mounted :: bool
  timers :: "(nat \<times> nat) list"
  now :: nat
  nextTimer :: nat
  trace :: "effect list"

definition defaultProps :: props_t where
  "defaultProps =
     \<lparr> props_resizeMode = ''contain'', props_paused = False, props_muted = False,
       props_volume = Fin 1, props_rate = Fin 1, props_showOnStart = True,
       props_controlTimeout = None, props_onLoad = False, props_onProgress = False,
       props_onError = False, props_onEnd = False \<rparr>"

definition constructor :: "props_t \<Rightarrow> VideoPlayer" where
  "constructor p =
     \<lparr> props = p,
       state =
         \<lparr> resizeMode = props_resizeMode p, paused = props_paused p, muted = props_muted p,
           volume = props_volume p, rate = props_rate p,
           isFullscreen = (props_resizeMode p = ''cover''),
           showTimeRemaining = True, volumeTrackWidth = Fin 0, lastScreenPress = Fin 0,
           volumeFillWidth = Fin 0, seekerFillWidth = Fin 0,
           showControls = props_showOnStart p, volumePosition = Fin 0,
           seekerPosition = Fin 0, volumeOffset = Fin 0, seekerOffset = Fin 0,
           seeking = False, loading = False, currentTime = Fin 0, error = False,
           duration = Fin 0, showRemainingTime = None \<rparr>,
       player =
         \<lparr> controlTimeoutDelay =
             (case props_controlTimeout p of None \<Rightarrow> 15000
              | Some d \<Rightarrow> if d = 0 then 15000 else d),
           controlTimeout = None, volumeWidth = Fin 150, iconOffset = Fin 0,
           seekWidth = Fin 0, seekerWidth = Undefined \<rparr>,
       mounted = False, timers = [], now = 0, nextTimer = 1, trace = [] \<rparr>"

subsection \<open>The auto-hide timer\<close>

text \<open>
  \<open>setTimeout\<close> registers a new pending timer under a fresh handle; the component keeps
  the handle in \<open>this.player.controlTimeout\<close>, overwriting the one stored before.
\<close>

definition setControlTimeout :: "VideoPlayer \<Rightarrow> VideoPlayer" where
  "setControlTimeout c =
     c\<lparr> timers := timers c @ [(nextTimer c, now c + controlTimeoutDelay (player c))],
        player := (player c)\<lparr> controlTimeout := Some (nextTimer c) \<rparr>,
        nextTimer := Suc (nextTimer c) \<rparr>"

text \<open>\<open>clearTimeout\<close> removes the timer with the given handle, if one is pending.\<close>

definition clearTimeout :: "nat option \<Rightarrow> (nat \<times> nat) list \<Rightarrow> (nat \<times> nat) list" where
  "clearTimeout h ts = (case h of None \<Rightarrow> ts | Some i \<Rightarrow> filter (\<lambda>t. fst t \<noteq> i) ts)"

definition clearControlTimeout :: "VideoPlayer \<Rightarrow> VideoPlayer" where
  "clearControlTimeout c = c\<lparr> timers := clearTimeout (controlTimeout (player c)) (timers c) \<rparr>"

definition resetControlTimeout :: "VideoPlayer \<Rightarrow> VideoPlayer" where
  "resetControlTimeout c = setControlTimeout (clearControlTimeout c)"

definition hideControls :: "VideoPlayer \<Rightarrow> VideoPlayer" where
  "hideControls c =
     (if mounted c
      then c\<lparr> trace := trace c @ [HideControlAnimation],
              state := (state c)\<lparr> showControls := False \<rparr> \<rparr>
      else c)"

text \<open>
  Time passes: the clock advances by \<open>dt\<close> milliseconds and every pending timer that is
  due runs its callback, which is \<open>hideControls\<close> for each timer the component creates.
\<close>

definition elapse :: "nat \<Rightarrow> VideoPlayer \<Rightarrow> VideoPlayer" where
  "elapse dt c =
     (let t = now c + dt;
          due = filter (\<lambda>x. snd x \<le> t) (timers c);
          rest = filter (\<lambda>x. \<not> snd x \<le> t) (timers c)
      in fold (\<lambda>x. hideControls) due (c\<lparr> now := t, timers := rest \<rparr>))"

definition toggleControls :: "VideoPlayer \<Rightarrow> VideoPlayer" where
  "toggleControls c =
     (let c1 = c\<lparr> state := (state c)\<lparr> showControls := \<not> showControls (state c) \<rparr> \<rparr>
      in if showControls (state c1)
         then setControlTimeout (c1\<lparr> trace := trace c1 @ [ShowControlAnimation] \<rparr>)
         else clearControlTimeout (c1\<lparr> trace := trace c1 @ [HideControlAnimation] \<rparr>))"

definition toggleTimer :: "VideoPlayer \<Rightarrow> VideoPlayer" where
  "toggleTimer c =
     c\<lparr> state := (state c)\<lparr> showTimeRemaining := \<not> showTimeRemaining (state c) \<rparr> \<rparr>"

subsection \<open>The timer text\<close>

text \<open>
  The quotient \<open>time / 60\<close> and the difference \<open>duration - currentTime\<close> are rounded to a
  double before their digits are taken. The remainder \<open>time % 60\<close> of two doubles is a
  double, and so are the results of \<open>Math.min\<close>, \<open>Math.max\<close> and \<open>Math.floor\<close>.
\<close>

definition formatTime :: "VideoPlayer \<Rightarrow> jsnum \<Rightarrow> string option" where
  "formatTime c time0 =
     (let symbol = (if showRemainingTime (state c) = Some True then ''-'' else '''');
          time = jmin (jmax (default0 time0) (Fin 0)) (duration (state c))
      in case toFixed0 (jfloor (jround (jdiv time (Fin 60)))) of
           None \<Rightarrow> None
         | Some minutes \<Rightarrow>
            (case toFixed0 (jfloor (jmod time (Fin 60))) of
               None \<Rightarrow> None
             | Some seconds \<Rightarrow>
                Some (symbol @ padStart minutes 2 CHR ''0'' @ '':'' @
                      padStart seconds 2 CHR ''0'')))"

definition calculateTime :: "VideoPlayer \<Rightarrow> string option" where
  "calculateTime c =
     (if showTimeRemaining (state c)
      then (let time = jround (jsub (duration (state c)) (currentTime (state c)))
            in map_option (\<lambda>r. ''-'' @ r) (formatTime c time))
      else formatTime c (currentTime (state c)))"

subsection \<open>The seek bar\<close>

definition constrainToSeekerMinMax :: "VideoPlayer \<Rightarrow> jsnum \<Rightarrow> jsnum" where
  "constrainToSeekerMinMax c val0 =
     (let val = default0 val0
      in if jle val (Fin 0) then Fin 0
         else if jge val (seekerWidth (player c)) then seekerWidth (player c)
         else val)"

definition setSeekerPosition :: "jsnum \<Rightarrow> VideoPlayer \<Rightarrow> VideoPlayer" where
  "setSeekerPosition position0 c =
     (let position = constrainToSeekerMinMax c (default0 position0);
          s = (state c)\<lparr> seekerFillWidth := position, seekerPosition := position \<rparr>
      in c\<lparr> state := (if \<not> seeking s then s\<lparr> seekerOffset := position \<rparr> else s) \<rparr>)"

definition calculateSeekerPosition :: "VideoPlayer \<Rightarrow> jsnum" where
  "calculateSeekerPosition c =
     jmul (seekerWidth (player c)) (jdiv (currentTime (state c)) (duration (state c)))"

definition calculateTimeFromSeekerPosition :: "VideoPlayer \<Rightarrow> jsnum" where
  "calculateTimeFromSeekerPosition c =
     jmul (duration (state c)) (jdiv (seekerPosition (state c)) (seekerWidth (player c)))"

definition seekTo :: "jsnum \<Rightarrow> VideoPlayer \<Rightarrow> VideoPlayer" where
  "seekTo time0 c =
     (let time = default0 time0
      in c\<lparr> state := (state c)\<lparr> currentTime := time \<rparr>, trace := trace c @ [Seek time] \<rparr>)"

text \<open>The layout callback of the seek track stores its width.\<close>

definition seekbar_onLayout :: "jsnum \<Rightarrow> VideoPlayer \<Rightarrow> VideoPlayer" where
  "seekbar_onLayout width c = c\<lparr> player := (player c)\<lparr> seekerWidth := width \<rparr> \<rparr>"

subsection \<open>The volume slider\<close>

definition constrainToVolumeMinMax :: "VideoPlayer \<Rightarrow> jsnum \<Rightarrow> jsnum" where
  "constrainToVolumeMinMax c val0 =
     (let val = default0 val0
      in if jle val (Fin 0) then Fin 0
         else if jge val (jadd (volumeWidth (player c)) (Fin 9))
              then jadd (volumeWidth (player c)) (Fin 9)
         else val)"

definition setVolumePosition :: "jsnum \<Rightarrow> VideoPlayer \<Rightarrow> VideoPlayer" where
  "setVolumePosition position0 c =
     (let position = constrainToVolumeMinMax c (default0 position0);
          s1 = (state c)\<lparr> volumePosition := jadd position (iconOffset (player c)),
                          volumeFillWidth := position \<rparr>;
          s2 = s1\<lparr> volumeTrackWidth := jsub (volumeWidth (player c)) (volumeFillWidth s1) \<rparr>;
          s3 = (if jlt (volumeFillWidth s2) (Fin 0) then s2\<lparr> volumeFillWidth := Fin 0 \<rparr>
                else s2);
          s4 = (if jgt (volumeTrackWidth s3) (Fin 150) then s3\<lparr> volumeTrackWidth := Fin 150 \<rparr>
                else s3)
      in c\<lparr> state := s4 \<rparr>)"

definition calculateVolumeFromVolumePosition :: "VideoPlayer \<Rightarrow> jsnum" where
  "calculateVolumeFromVolumePosition c =
     jdiv (volumePosition (state c)) (volumeWidth (player c))"

definition calculateVolumePositionFromVolume :: "VideoPlayer \<Rightarrow> jsnum" where
  "calculateVolumePositionFromVolume c = jmul (volumeWidth (player c)) (volume (state c))"

subsection \<open>Events of the video\<close>

definition onLoad :: "jsnum \<Rightarrow> VideoPlayer \<Rightarrow> VideoPlayer" where
  "onLoad data_duration c =
     (let c1 = c\<lparr> state := (state c)\<lparr> duration := data_duration, loading := False \<rparr> \<rparr>;
          c2 = (if showControls (state c1) then setControlTimeout c1 else c1)
      in if props_onLoad (props c2) then c2\<lparr> trace := trace c2 @ [OnLoad data_duration] \<rparr>
         else c2)"

definition onProgress :: "jsnum \<Rightarrow> VideoPlayer \<Rightarrow> VideoPlayer" where
  "onProgress data_currentTime c =
     (let c1 = c\<lparr> state := (state c)\<lparr> currentTime := data_currentTime \<rparr> \<rparr>;
          c2 = (if \<not> seeking (state c1)
                then setSeekerPosition (calculateSeekerPosition c1) c1
                else c1)
      in if props_onProgress (props c2)
         then c2\<lparr> trace := trace c2 @ [OnProgress data_currentTime] \<rparr>
         else c2)"

definition onError :: "VideoPlayer \<Rightarrow> VideoPlayer" where
  "onError c =
     (if props_onError (props c) then c\<lparr> trace := trace c @ [OnError] \<rparr>
      else c\<lparr> state := (state c)\<lparr> error := True, loading := False \<rparr> \<rparr>)"

subsection \<open>Mounting\<close>

definition componentDidMount :: "VideoPlayer \<Rightarrow> VideoPlayer" where
  "componentDidMount c =
     (let position = calculateVolumePositionFromVolume c;
          c1 = (setVolumePosition position c)\<lparr> mounted := True \<rparr>
      in c1\<lparr> state := (state c1)\<lparr> volumeOffset := position \<rparr> \<rparr>)"

definition componentWillUnmount :: "VideoPlayer \<Rightarrow> VideoPlayer" where
  "componentWillUnmount c = clearControlTimeout (c\<lparr> mounted := False \<rparr>)"

subsection \<open>The pan responder of the seek bar\<close>

definition seek_onPanResponderGrant :: "VideoPlayer \<Rightarrow> VideoPlayer" where
  "seek_onPanResponderGrant c =
     (let c1 = clearControlTimeout c in c1\<lparr> state := (state c1)\<lparr> seeking := True \<rparr> \<rparr>)"

definition seek_onPanResponderMove :: "jsnum \<Rightarrow> VideoPlayer \<Rightarrow> VideoPlayer" where
  "seek_onPanResponderMove dx c =
     (let position = jadd (seekerOffset (state c)) dx in setSeekerPosition position c)"

definition seek_onPanResponderRelease :: "VideoPlayer \<Rightarrow> VideoPlayer" where
  "seek_onPanResponderRelease c =
     (let time = calculateTimeFromSeekerPosition c
      in if jge time (duration (state c)) \<and> \<not> loading (state c)
         then (let c1 = c\<lparr> state := (state c)\<lparr> paused := True \<rparr> \<rparr>
               in if props_onEnd (props c1) then c1\<lparr> trace := trace c1 @ [OnEnd] \<rparr> else c1)
         else (let c1 = setControlTimeout (seekTo time c)
               in c1\<lparr> state := (state c1)\<lparr> seeking := False \<rparr> \<rparr>))"

subsection \<open>The pan responder of the volume slider\<close>

definition volume_onPanResponderGrant :: "VideoPlayer \<Rightarrow> VideoPlayer" where
  "volume_onPanResponderGrant c = clearControlTimeout c"

definition volume_onPanResponderMove :: "jsnum \<Rightarrow> VideoPlayer \<Rightarrow> VideoPlayer" where
  "volume_onPanResponderMove dx c =
     (let position = jadd (volumeOffset (state c)) dx;
          c1 = setVolumePosition position c;
          c2 = c1\<lparr> state := (state c1)\<lparr> volume := calculateVolumeFromVolumePosition c1 \<rparr> \<rparr>
      in if jle (volume (state c2)) (Fin 0)
         then c2\<lparr> state := (state c2)\<lparr> muted := True \<rparr> \<rparr>
         else c2\<lparr> state := (state c2)\<lparr> muted := False \<rparr> \<rparr>)"

definition volume_onPanResponderRelease :: "VideoPlayer \<Rightarrow> VideoPlayer" where
  "volume_onPanResponderRelease c =
     setControlTimeout (c\<lparr> state := (state c)\<lparr> volumeOffset := volumePosition (state c) \<rparr> \<rparr>)"

section \<open>Reference definitions\<close>

text \<open>
  The timer text as the specification words it: minutes are \<open>floor (time / 60)\<close>, seconds
  are \<open>floor (time mod 60)\<close>, each padded with zeros to width 2. For a time that is not
  negative, \<open>time mod 60\<close> is \<open>time - 60 * floor (time / 60)\<close>.
\<close>

definition zeroPad2 :: "string \<Rightarrow> string" where
  "zeroPad2 s = (if length s < 2 then replicate (2 - length s) CHR ''0'' @ s else s)"

definition spec_mmss :: "rat \<Rightarrow> string" where
  "spec_mmss x =
     zeroPad2 (decimal \<lfloor>x / 60\<rfloor>) @ '':'' @
     zeroPad2 (decimal \<lfloor>x - 60 * of_int \<lfloor>x / 60\<rfloor>\<rfloor>)"

section \<open>Concrete components\<close>

text \<open>The component built from the default properties, after it has been mounted.\<close>

definition mountedDefault :: VideoPlayer where
  "mountedDefault = componentDidMount (constructor defaultProps)"

text \<open>The same component when the host supplies an \<open>onError\<close> handler.\<close>

definition withErrorHandler :: VideoPlayer where
  "withErrorHandler =
     componentDidMount (constructor (defaultProps\<lparr> props_onError := True \<rparr>))"

text \<open>
  The seek track has been laid out 300 pixels wide, but the video has not been loaded:
  the duration is still 0.
\<close>

definition beforeLoad :: VideoPlayer where
  "beforeLoad = seekbar_onLayout (Fin 300) mountedDefault"

text \<open>
  In that state a progress event at time 0 arrives, which stores \<open>NaN\<close> as the offset of
  the seek handle, and a seek drag is granted.
\<close>

definition nanOffset :: VideoPlayer where
  "nanOffset = seek_onPanResponderGrant (onProgress (Fin 0) beforeLoad)"

text \<open>A video of 200 seconds has been loaded, and the seek track was laid out 0 pixels wide.\<close>

definition zeroTrack :: VideoPlayer where
  "zeroTrack = onLoad (Fin 200) (seekbar_onLayout (Fin 0) mountedDefault)"

text \<open>A video of 200 seconds on a seek track of 300 pixels, played up to second \<open>t\<close>.\<close>

definition playing :: "rat \<Rightarrow> VideoPlayer" where
  "playing t = onProgress (Fin t) (onLoad (Fin 200) beforeLoad)"

text \<open>A seek drag granted at the start of that video and moved by \<open>p\<close> pixels.\<close>

definition dragging :: "rat \<Rightarrow> VideoPlayer" where
  "dragging p = seek_onPanResponderMove (Fin p) (seek_onPanResponderGrant (playing 0))"

text \<open>
  During that drag, with the seek handle moved to pixel 7, the video reports second 80:
  the current time changes and the seek handle stays.
\<close>

definition progressWhileDragging :: VideoPlayer where
  "progressWhileDragging = onProgress (Fin 80) (dragging 7)"

text \<open>A seek drag granted while the seek handle is at pixel 50.\<close>

definition atOffset50 :: VideoPlayer where
  "atOffset50 = seek_onPanResponderGrant (playing (100 / 3))"

text \<open>
  A video of duration 120 at current time 45, and the same with both numbers multiplied
  by 1000.
\<close>

definition secondsScenario :: VideoPlayer where
  "secondsScenario = onProgress (Fin 45) (onLoad (Fin 120) beforeLoad)"

definition millisScenario :: VideoPlayer where
  "millisScenario = onProgress (Fin 45000) (onLoad (Fin 120000) beforeLoad)"

text \<open>
  The user hides the controls and shows them again, which arms a timer; then the video
  finishes loading, which arms another one.
\<close>

definition doubleArmed :: VideoPlayer where
  "doubleArmed = onLoad (Fin 120) (toggleControls (toggleControls mountedDefault))"

section \<open>Properties\<close>

lemmas number_defs = jsub_def jlt_def jge_def jgt_def jmax_def jmin_def default0_def

lemmas volume_defs =
  calculateVolumePositionFromVolume_def calculateVolumeFromVolumePosition_def
  setVolumePosition_def constrainToVolumeMinMax_def volume_onPanResponderMove_def

lemmas seek_defs =
  constrainToSeekerMinMax_def setSeekerPosition_def calculateSeekerPosition_def
  calculateTimeFromSeekerPosition_def seekTo_def seekbar_onLayout_def
  seek_onPanResponderGrant_def seek_onPanResponderMove_def seek_onPanResponderRelease_def

lemmas timer_defs =
  setControlTimeout_def clearTimeout_def clearControlTimeout_def hideControls_def
  elapse_def toggleControls_def toggleTimer_def

lemmas setup_defs =
  mountedDefault_def withErrorHandler_def beforeLoad_def zeroTrack_def playing_def
  dragging_def atOffset50_def nanOffset_def progressWhileDragging_def secondsScenario_def millisScenario_def doubleArmed_def
  componentDidMount_def constructor_def defaultProps_def onLoad_def onProgress_def Let_def

lemmas all_defs = setup_defs seek_defs volume_defs timer_defs number_defs

lemma jgt_not_jle: "jgt a b \<Longrightarrow> \<not> jle a b"
  by (simp add: jgt_def jlt_def)

text \<open>The result of an arithmetic operation is never \<open>undefined\<close>.\<close>

lemma default0_jadd: "default0 (jadd a b) = jadd a b"
  by (cases a; cases b) (simp_all add: default0_def)

lemma default0_jmul: "default0 (jmul a b) = jmul a b"
  by (cases a; cases b) (simp_all add: default0_def)

lemma default0_Fin: "default0 (Fin x) = Fin x"
  by (simp add: default0_def)

subsection \<open>Rounding to a double\<close>

lemma ilog2_bounds:
  assumes "0 < x"
  shows "2 powi ilog2 x \<le> x \<and> x < 2 powi (ilog2 x + 1)"
proof (cases "1 \<le> x")
  case True
  define n where "n = \<lfloor>x\<rfloor>"
  have n1: "1 \<le> n" using True by (simp add: n_def)
  then have n0: "0 < n" by simp
  have b1: "1 \<le> bitlen n" using n0 bitlen_eq_zero_iff [of n] bitlen_nonneg [of n] by linarith
  from bitlen_bounds [OF n0] have lo: "2 ^ nat (bitlen n - 1) \<le> n" and hi: "n < 2 ^ nat (bitlen n)"
    by auto
  have e: "ilog2 x = bitlen n - 1" using True by (simp add: ilog2_def n_def)
  have "(2::rat) powi (bitlen n - 1) = 2 ^ nat (bitlen n - 1)"
    using b1 by (simp add: power_int_nonneg_exp)
  also have "\<dots> = of_int (2 ^ nat (bitlen n - 1))" by simp
  also have "\<dots> \<le> of_int n" using lo by (simp only: of_int_le_iff)
  also have "\<dots> \<le> x" by (simp add: n_def)
  finally have A: "2 powi ilog2 x \<le> x" by (simp add: e)
  have "n + 1 \<le> 2 ^ nat (bitlen n)" using hi by simp
  then have "(of_int (n + 1) :: rat) \<le> of_int (2 ^ nat (bitlen n))" by (simp only: of_int_le_iff)
  moreover have "x < of_int (n + 1)" unfolding n_def by linarith
  ultimately have "x < of_int (2 ^ nat (bitlen n))" by linarith
  also have "\<dots> = 2 powi (bitlen n)" using b1 by (simp add: power_int_nonneg_exp)
  finally have B: "x < 2 powi (ilog2 x + 1)" by (simp add: e)
  from A B show ?thesis ..
next
  case False
  then have x1: "x < 1" by simp
  define N where "N = \<lceil>1 / x\<rceil>"
  define k where "k = bitlen (N - 1)"
  have inv: "1 < 1 / x" using assms x1 by simp
  then have N2: "2 \<le> N" unfolding N_def by linarith
  then have M0: "0 < N - 1" by simp
  have k1: "1 \<le> k" using M0 bitlen_eq_zero_iff [of "N - 1"] bitlen_nonneg [of "N - 1"]
    unfolding k_def by linarith
  from bitlen_bounds [OF M0] have lo: "2 ^ nat (k - 1) \<le> N - 1" and hi: "N - 1 < 2 ^ nat k"
    by (auto simp add: k_def)
  have e: "ilog2 x = - k" using False by (simp add: ilog2_def N_def k_def)
  have "1 / x \<le> of_int N" by (simp add: N_def)
  also have "N \<le> 2 ^ nat k" using hi by simp
  then have "(of_int N :: rat) \<le> of_int (2 ^ nat k)" by (simp only: of_int_le_iff)
  finally have "1 / x \<le> 2 ^ nat k" by simp
  then have "1 \<le> 2 ^ nat k * x" using assms by (simp add: field_simps)
  then have "1 / 2 ^ nat k \<le> x" by (simp add: field_simps)
  moreover have "(2::rat) powi (- k) = 1 / 2 ^ nat k"
    using k1 by (simp add: power_int_minus_divide power_int_nonneg_exp)
  ultimately have A: "2 powi ilog2 x \<le> x" by (simp add: e)
  have "(of_int (2 ^ nat (k - 1)) :: rat) \<le> of_int (N - 1)" using lo by (simp only: of_int_le_iff)
  moreover have "of_int (N - 1) < 1 / x" unfolding N_def by linarith
  ultimately have "2 ^ nat (k - 1) < 1 / x" by simp
  then have "2 ^ nat (k - 1) * x < 1" using assms by (simp add: field_simps)
  then have "x < 1 / 2 ^ nat (k - 1)" by (simp add: field_simps)
  moreover have "(2::rat) powi (- k + 1) = 1 / 2 ^ nat (k - 1)"
  proof -
    have "- k + 1 = - (k - 1)" by simp
    then have "(2::rat) powi (- k + 1) = 2 powi (- (k - 1))" by simp
    also have "\<dots> = 1 / 2 powi (k - 1)" by (rule power_int_minus_divide)
    also have "\<dots> = 1 / 2 ^ nat (k - 1)" using k1 by (simp add: power_int_nonneg_exp)
    finally show ?thesis .
  qed
  ultimately have B: "x < 2 powi (ilog2 x + 1)" by (simp add: e)
  from A B show ?thesis ..
qed

lemma ilog2_ge: "0 < x \<Longrightarrow> 2 powi k \<le> x \<Longrightarrow> k \<le> ilog2 x"
proof (rule ccontr)
  assume x: "0 < x" and k: "2 powi k \<le> x" and n: "\<not> k \<le> ilog2 x"
  then have "ilog2 x + 1 \<le> k" by simp
  then have "(2::rat) powi (ilog2 x + 1) \<le> 2 powi k" by (rule power_int_increasing) simp
  with ilog2_bounds [OF x] k show False by linarith
qed

lemma ilog2_less: "0 < x \<Longrightarrow> x < 2 powi k \<Longrightarrow> ilog2 x < k"
proof (rule ccontr)
  assume x: "0 < x" and k: "x < 2 powi k" and n: "\<not> ilog2 x < k"
  then have "k \<le> ilog2 x" by simp
  then have "(2::rat) powi k \<le> 2 powi ilog2 x" by (rule power_int_increasing) simp
  with ilog2_bounds [OF x] k show False by linarith
qed

lemma ilog2_unique: "0 < x \<Longrightarrow> 2 powi k \<le> x \<Longrightarrow> x < 2 powi (k + 1) \<Longrightarrow> ilog2 x = k"
  using ilog2_ge [of x k] ilog2_less [of x "k + 1"] by simp

lemma rhe_of_int: "round_half_even (of_int n) = n"
  by (simp add: round_half_even_def)

lemma rhe_err: "\<bar>of_int (round_half_even x) - x\<bar> \<le> 1 / 2"
proof -
  have "0 \<le> x - of_int \<lfloor>x\<rfloor>" and "x - of_int \<lfloor>x\<rfloor> < 1" by linarith+
  then show ?thesis by (auto simp add: round_half_even_def Let_def)
qed

lemma rhe_ge: "of_int n \<le> x \<Longrightarrow> n \<le> round_half_even x"
proof -
  assume "of_int n \<le> x"
  then have "n \<le> \<lfloor>x\<rfloor>" by (simp add: le_floor_iff)
  then show ?thesis by (auto simp add: round_half_even_def Let_def)
qed

lemma rhe_le: "x \<le> of_int n \<Longrightarrow> round_half_even x \<le> n"
proof -
  assume a: "x \<le> of_int n"
  show ?thesis
  proof (cases "x = of_int n")
    case True
    then show ?thesis by (simp add: rhe_of_int)
  next
    case False
    with a have "x < of_int n" by simp
    then have "\<lfloor>x\<rfloor> < n" by (simp add: floor_less_iff)
    then show ?thesis by (auto simp add: round_half_even_def Let_def)
  qed
qed

lemma rhe_less: "x < of_int n - 1 / 2 \<Longrightarrow> round_half_even x < n"
proof -
  assume a: "x < of_int n - 1 / 2"
  then have "x < of_int n" by linarith
  then have f: "\<lfloor>x\<rfloor> \<le> n - 1" by (simp add: floor_less_iff)
  show ?thesis
  proof (cases "\<lfloor>x\<rfloor> = n - 1")
    case True
    then have "x - of_int \<lfloor>x\<rfloor> < 1 / 2" using a by simp
    then show ?thesis using True by (simp add: round_half_even_def Let_def)
  next
    case False
    with f have "\<lfloor>x\<rfloor> + 1 < n" by simp
    then show ?thesis by (auto simp add: round_half_even_def Let_def)
  qed
qed


lemma pow2_recip: "k \<le> 0 \<Longrightarrow> (2::rat) powi k = 1 / of_int (2 ^ nat (- k))"
proof -
  assume k: "k \<le> 0"
  have "(2::rat) powi k = 2 powi (- (- k))" by simp
  also have "\<dots> = 1 / 2 powi (- k)" by (rule power_int_minus_divide)
  also have "\<dots> = 1 / 2 ^ nat (- k)" using k by (simp add: power_int_nonneg_exp)
  finally show ?thesis by simp
qed

lemma quantum_pos: "0 < quantum x"
  by (simp add: quantum_def)

lemma nearest_eq: "x \<noteq> 0 \<Longrightarrow> nearest x = of_int (round_half_even (x / quantum x)) * quantum x"
  by (simp add: nearest_def)

lemma nearest_of_int:
  assumes "0 \<le> n" and "n < 2 ^ 53"
  shows "nearest (of_int n) = of_int n"
proof (cases "n = 0")
  case True
  then show ?thesis by (simp add: nearest_def)
next
  case False
  define x :: rat where "x = of_int n"
  have x1: "1 \<le> x" using assms(1) False by (simp add: x_def)
  then have x0: "0 < x" by simp
  have "(2::rat) powi 0 \<le> x" using x1 by simp
  then have e0: "0 \<le> ilog2 x" using x0 by (simp add: ilog2_ge)
  have "x < of_int (2 ^ 53)" unfolding x_def using assms(2) by (simp only: of_int_less_iff)
  then have "x < 2 powi 53" by simp
  then have e53: "ilog2 x < 53" using x0 by (simp add: ilog2_less)
  define P :: int where "P = 2 ^ nat (52 - ilog2 x)"
  have q: "quantum x = 1 / of_int P"
    using e0 e53 x0 pow2_recip [of "ilog2 x - 52"] by (simp add: quantum_def P_def max_def)
  have P0: "0 < P" by (simp add: P_def)
  have "x / quantum x = x * of_int P" by (simp add: q)
  also have "\<dots> = of_int (n * P)" by (simp add: x_def)
  finally have "x / quantum x = of_int (n * P)" .
  then have "round_half_even (x / quantum x) = n * P" by (simp only: rhe_of_int)
  then have "nearest x = of_int (n * P) * (1 / of_int P)"
    using x0 by (simp add: nearest_eq q)
  also have "\<dots> = x" using P0 by (simp add: x_def)
  finally show ?thesis by (simp add: x_def)
qed

lemma nearest_pos_imp: "0 < nearest x \<Longrightarrow> 0 < x"
proof (rule ccontr)
  assume p: "0 < nearest x" and n: "\<not> 0 < x"
  then have x0: "x \<noteq> 0" by (auto simp add: nearest_def)
  with n have "x / quantum x \<le> of_int 0" using quantum_pos [of x]
    by (simp add: divide_le_0_iff)
  then have "round_half_even (x / quantum x) \<le> 0" by (rule rhe_le)
  then have "of_int (round_half_even (x / quantum x)) * quantum x \<le> 0"
    using quantum_pos [of x] by (simp add: mult_le_0_iff)
  with p x0 show False by (simp add: nearest_eq)
qed

lemma nearest_bound:
  assumes "\<bar>x\<bar> < 2 ^ 54"
  shows "\<bar>nearest x\<bar> < 2 ^ 55"
proof (cases "x = 0")
  case True
  then show ?thesis by (simp add: nearest_def)
next
  case False
  then have a0: "0 < \<bar>x\<bar>" by simp
  have "\<bar>x\<bar> < 2 powi 54" using assms by simp
  then have "ilog2 \<bar>x\<bar> < 54" using a0 by (simp add: ilog2_less)
  then have "max (ilog2 \<bar>x\<bar>) (- 1022) - 52 \<le> 1" by simp
  then have "(2::rat) powi (max (ilog2 \<bar>x\<bar>) (- 1022) - 52) \<le> 2 powi 1"
    by (rule power_int_increasing) simp
  then have q2: "quantum x \<le> 2" by (simp add: quantum_def)
  define r where "r = round_half_even (x / quantum x)"
  have "\<bar>of_int r - x / quantum x\<bar> \<le> 1 / 2" unfolding r_def by (rule rhe_err)
  then have "\<bar>of_int r - x / quantum x\<bar> * quantum x \<le> 1 / 2 * quantum x"
    using quantum_pos [of x] by (simp add: mult_right_mono)
  moreover have "\<bar>of_int r - x / quantum x\<bar> * quantum x = \<bar>of_int r * quantum x - x\<bar>"
  proof -
    have "\<bar>of_int r - x / quantum x\<bar> * quantum x = \<bar>(of_int r - x / quantum x) * quantum x\<bar>"
      using quantum_pos [of x] by (simp add: abs_mult)
    also have "(of_int r - x / quantum x) * quantum x = of_int r * quantum x - x"
      using quantum_pos [of x] by (simp add: field_simps)
    finally show ?thesis .
  qed
  ultimately have "\<bar>of_int r * quantum x - x\<bar> \<le> 1" using q2 by linarith
  then have "\<bar>of_int r * quantum x\<bar> \<le> \<bar>x\<bar> + 1" by linarith
  with assms have "\<bar>of_int r * quantum x\<bar> < 2 ^ 55" by simp
  then show ?thesis using False by (simp add: nearest_eq r_def)
qed


lemma nearest_fix: "y = of_int r * quantum y \<Longrightarrow> nearest y = y"
proof (cases "y = 0")
  case True
  then show ?thesis by (simp add: nearest_def)
next
  case False
  assume y: "y = of_int r * quantum y"
  have "y / quantum y = of_int r * quantum y / quantum y" using y by simp
  also have "\<dots> = of_int r" using quantum_pos [of y] by simp
  finally have "round_half_even (y / quantum y) = r" by (simp only: rhe_of_int)
  then show ?thesis using False y by (simp add: nearest_eq)
qed

lemma pow2_split: "(2::rat) powi (a + b) = 2 powi a * 2 powi b"
  by (rule power_int_add) simp

lemma pow2_shift: "a = b + c \<Longrightarrow> (2::rat) powi a = 2 powi b * 2 powi c"
  by (simp add: pow2_split)

lemma nearest_idem_pos:
  assumes "0 < x"
  shows "nearest (nearest x) = nearest x"
proof -
  define e where "e = ilog2 x"
  define ec where "ec = max e (- 1022)"
  define q :: rat where "q = 2 powi (ec - 52)"
  define r where "r = round_half_even (x / q)"
  define y where "y = of_int r * q"
  have q0: "0 < q" by (simp add: q_def)
  have qx: "quantum x = q" using assms by (simp add: quantum_def q_def ec_def e_def)
  have ny: "nearest x = y" using assms by (simp add: nearest_eq qx y_def r_def)
  from ilog2_bounds [OF assms] have lo: "2 powi e \<le> x" and hi: "x < 2 powi (e + 1)"
    by (simp_all add: e_def)
  have q53: "q * 2 ^ 53 = 2 powi (ec + 1)"
  proof -
    have "(2::rat) powi (ec + 1) = 2 powi (ec - 52) * 2 powi 53" by (rule pow2_shift) simp
    then show ?thesis by (simp add: q_def)
  qed
  have q52: "q * 2 ^ 52 = 2 powi ec"
  proof -
    have "(2::rat) powi ec = 2 powi (ec - 52) * 2 powi 52" by (rule pow2_shift) simp
    then show ?thesis by (simp add: q_def)
  qed
  have "(2::rat) powi (e + 1) \<le> 2 powi (ec + 1)"
    by (rule power_int_increasing) (simp_all add: ec_def)
  with hi have "x < q * 2 ^ 53" unfolding q53 by linarith
  then have "x / q < 2 ^ 53" using q0 by (simp add: field_simps)
  then have "x / q \<le> of_int (2 ^ 53)" by simp
  then have r53: "r \<le> 2 ^ 53" unfolding r_def by (rule rhe_le)
  have "of_int 0 \<le> x / q" using assms q0 by simp
  then have r0: "0 \<le> r" unfolding r_def by (rule rhe_ge)
  show ?thesis
  proof (cases "r = 0")
    case True
    then have "y = 0" by (simp add: y_def)
    then show ?thesis unfolding ny by (simp add: nearest_def)
  next
    case False
    with r0 have r1: "1 \<le> r" by simp
    have y0: "0 < y" using r1 q0 by (simp add: y_def)
    show ?thesis
    proof (cases "- 1022 \<le> e \<and> r = 2 ^ 53")
      case True
      then have ece: "ec = e" by (simp add: ec_def)
      have "y = q * 2 ^ 53" using True by (simp add: y_def mult.commute)
      then have yv: "y = 2 powi (e + 1)" unfolding q53 ece .
      have "(2::rat) powi (e + 1) < 2 powi (e + 1 + 1)"
        by (rule power_int_strict_increasing) simp_all
      then have "ilog2 y = e + 1" using y0 yv by (simp add: ilog2_unique)
      then have qy: "quantum y = 2 powi (e - 51)"
        using y0 True by (simp add: quantum_def max_def)
      have "(2::rat) powi (e + 1) = 2 powi (e - 51) * 2 powi 52" by (rule pow2_shift) simp
      with yv qy have "y = of_int (2 ^ 52) * quantum y" by simp
      then have "nearest y = y" by (rule nearest_fix)
      then show ?thesis by (simp add: ny)
    next
      case False
      have le: "ilog2 y \<le> ec"
      proof (cases "- 1022 \<le> e")
        case True
        then have ece: "ec = e" by (simp add: ec_def)
        from True False r53 have "r < 2 ^ 53" by simp
        then have "(of_int r :: rat) < of_int (2 ^ 53)" by (simp only: of_int_less_iff)
        then have "of_int r * q < of_int (2 ^ 53) * q" using q0 by (simp only: mult_less_cancel_right_pos)
        then have "y < q * 2 ^ 53" by (simp add: y_def mult.commute)
        then have "y < 2 powi (ec + 1)" unfolding q53 .
        then have "ilog2 y < ec + 1" using y0 by (rule ilog2_less [rotated])
        then show ?thesis by simp
      next
        case False
        then have ecv: "ec = - 1022" by (simp add: ec_def)
        have "(2::rat) powi (e + 1) \<le> 2 powi ec"
          by (rule power_int_increasing) (use False ecv in simp_all)
        with hi have "x < q * 2 ^ 52" unfolding q52 by linarith
        then have "x / q < 2 ^ 52" using q0 by (simp add: field_simps)
        then have "x / q \<le> of_int (2 ^ 52)" by simp
        then have "r \<le> 2 ^ 52" unfolding r_def by (rule rhe_le)
        then have "(of_int r :: rat) \<le> of_int (2 ^ 52)" by (simp only: of_int_le_iff)
        then have "of_int r * q \<le> of_int (2 ^ 52) * q" using q0 by (simp only: mult_le_cancel_right_pos)
        then have "y \<le> q * 2 ^ 52" by (simp add: y_def mult.commute)
        then have "y \<le> 2 powi ec" unfolding q52 .
        also have "(2::rat) powi ec < 2 powi (ec + 1)"
          by (rule power_int_strict_increasing) simp_all
        finally have "y < 2 powi (ec + 1)" .
        then have "ilog2 y < ec + 1" using y0 by (rule ilog2_less [rotated])
        then show ?thesis by simp
      qed
      have ge: "- 1022 \<le> e \<Longrightarrow> e \<le> ilog2 y"
      proof -
        assume n: "- 1022 \<le> e"
        then have ece: "ec = e" by (simp add: ec_def)
        have "q * 2 ^ 52 \<le> x" unfolding q52 ece by (rule lo)
        then have "2 ^ 52 \<le> x / q" using q0 by (simp add: field_simps)
        then have "of_int (2 ^ 52) \<le> x / q" by simp
        then have "2 ^ 52 \<le> r" unfolding r_def by (rule rhe_ge)
        then have "(of_int (2 ^ 52) :: rat) \<le> of_int r" by (simp only: of_int_le_iff)
        then have "of_int (2 ^ 52) * q \<le> of_int r * q" using q0 by (simp only: mult_le_cancel_right_pos)
        then have "q * 2 ^ 52 \<le> y" by (simp add: y_def mult.commute)
        then have "2 powi e \<le> y" unfolding q52 ece .
        then show ?thesis using y0 by (simp add: ilog2_ge)
      qed
      have "max (ilog2 y) (- 1022) = ec"
      proof (cases "- 1022 \<le> e")
        case True
        with le ge [OF True] show ?thesis by (simp add: ec_def max_def)
      next
        case False
        with le show ?thesis by (simp add: ec_def max_def)
      qed
      then have "quantum y = q" using y0 by (simp add: quantum_def q_def)
      then have "y = of_int r * quantum y" by (simp add: y_def)
      then have "nearest y = y" by (rule nearest_fix)
      then show ?thesis by (simp add: ny)
    qed
  qed
qed


lemma quantum_recip:
  assumes "0 < x" and "x < 2 ^ 53"
  shows "quantum x = 1 / of_int (2 ^ nat (52 - max (ilog2 x) (- 1022)))"
proof -
  have "x < 2 powi 53" using assms(2) by simp
  then have "ilog2 x < 53" using assms(1) by (rule ilog2_less [rotated])
  then have "max (ilog2 x) (- 1022) - 52 \<le> 0" by simp
  from pow2_recip [OF this] show ?thesis using assms(1) by (simp add: quantum_def)
qed

lemma floor_nearest_div60:
  assumes dbl: "nearest y = y" and y0: "0 \<le> y" and y53: "y < 2 ^ 53"
  shows "of_int \<lfloor>y / 60\<rfloor> \<le> nearest (y / 60) \<and> nearest (y / 60) < of_int \<lfloor>y / 60\<rfloor> + 1"
proof (cases "y = 0")
  case True
  then show ?thesis by (simp add: nearest_def)
next
  case False
  with y0 have yp: "0 < y" by simp
  define x where "x = y / 60"
  define n1 where "n1 = \<lfloor>x\<rfloor>"
  have xp: "0 < x" using yp by (simp add: x_def)
  have x53: "x < 2 ^ 53" using y53 yp by (simp add: x_def)
  define e where "e = ilog2 x"
  define P :: int where "P = 2 ^ nat (52 - max e (- 1022))"
  have P1: "1 \<le> P" by (simp add: P_def)
  then have Pp: "(0::rat) < of_int P" by simp
  have q: "quantum x = 1 / of_int P"
    using quantum_recip [OF xp x53] by (simp add: P_def e_def)
  define r where "r = round_half_even (x * of_int P)"
  have nx: "nearest x = of_int r / of_int P"
    using xp by (simp add: nearest_eq q r_def)
  have n1x: "of_int n1 \<le> x" and xn1: "x < of_int n1 + 1"
    unfolding n1_def by linarith+
  have "of_int (n1 * P) \<le> x * of_int P" using n1x Pp by simp
  then have "n1 * P \<le> r" unfolding r_def by (rule rhe_ge)
  then have "(of_int (n1 * P) :: rat) \<le> of_int r" by (simp only: of_int_le_iff)
  then have "of_int n1 * of_int P \<le> (of_int r :: rat)" by simp
  then have lower: "of_int n1 \<le> nearest x" using Pp by (simp add: nx field_simps)
  have gap: "1 / 2 < (of_int n1 + 1 - x) * of_int P"
  proof (cases "x < 1 / 2")
    case True
    then have "n1 = 0" unfolding n1_def using xp by linarith
    then have "1 / 2 < of_int n1 + 1 - x" using True by simp
    moreover have "(of_int n1 + 1 - x) * 1 \<le> (of_int n1 + 1 - x) * of_int P"
      using P1 xn1 by (intro mult_left_mono) simp_all
    then have "of_int n1 + 1 - x \<le> (of_int n1 + 1 - x) * of_int P"
      by (simp only: mult_1_right)
    ultimately show ?thesis by linarith
  next
    case False
    then have "2 powi (- 1) \<le> x" by (simp add: power_int_minus_divide)
    then have e1: "- 1 \<le> e" unfolding e_def using xp by (rule ilog2_ge [rotated])
    then have me: "max e (- 1022) = e" by simp
    have e53: "e < 53"
    proof -
      have "x < 2 powi 53" using x53 by simp
      then show ?thesis unfolding e_def using xp by (rule ilog2_less [rotated])
    qed
    define ey where "ey = ilog2 y"
    have "(2::rat) powi (e + 5) = 2 powi e * 2 powi 5" by (rule pow2_shift) simp
    also have "\<dots> = 32 * 2 powi e" by simp
    also have "\<dots> \<le> 32 * x" using ilog2_bounds [OF xp] by (simp add: e_def)
    also have "\<dots> \<le> y" using yp by (simp add: x_def)
    finally have "2 powi (e + 5) \<le> y" .
    then have ey5: "e + 5 \<le> ey" unfolding ey_def using yp by (rule ilog2_ge [rotated])
    have "y < 2 powi 53" using y53 by simp
    then have ey53: "ey < 53" unfolding ey_def using yp by (rule ilog2_less [rotated])
    define Py :: int where "Py = 2 ^ nat (52 - ey)"
    have mey: "max ey (- 1022) = ey" using ey5 e1 by simp
    have qy: "quantum y = 1 / of_int Py"
      using quantum_recip [OF yp y53] by (simp add: Py_def ey_def [symmetric] mey)
    have Pyp: "(0::rat) < of_int Py" by (simp add: Py_def)
    define m where "m = round_half_even (y / quantum y)"
    have "y = of_int m * quantum y" using dbl yp by (simp add: nearest_eq m_def)
    then have ym: "y * of_int Py = of_int m" using Pyp by (simp add: qy)
    have "y < 60 * (of_int n1 + 1)" using xn1 by (simp add: x_def)
    then have "y * of_int Py < 60 * (of_int n1 + 1) * of_int Py" using Pyp by simp
    then have "(of_int m :: rat) < of_int (60 * (n1 + 1) * Py)" by (simp add: ym)
    then have "m < 60 * (n1 + 1) * Py" by (simp only: of_int_less_iff)
    then have "m + 1 \<le> 60 * (n1 + 1) * Py" by simp
    then have "(of_int (m + 1) :: rat) \<le> of_int (60 * (n1 + 1) * Py)" by (simp only: of_int_le_iff)
    then have "y * of_int Py + 1 \<le> 60 * (of_int n1 + 1) * of_int Py" by (simp add: ym)
    then have g1: "1 \<le> (60 * (of_int n1 + 1) - y) * of_int Py" by (simp add: algebra_simps)
    have "nat (52 - e) = nat (52 - ey) + nat (ey - e)" using ey5 ey53 by simp
    then have "P = Py * 2 ^ nat (ey - e)" by (simp add: P_def Py_def me power_add)
    moreover have "(2::int) ^ 5 \<le> 2 ^ nat (ey - e)"
      by (rule power_increasing) (use ey5 in simp_all)
    ultimately have "Py * 32 \<le> P" using Pyp by simp
    then have "(of_int (Py * 32) :: rat) \<le> of_int P" by (simp only: of_int_le_iff)
    then have PP: "of_int Py * 32 \<le> (of_int P :: rat)" by simp
    have d0: "0 < 60 * (of_int n1 + 1) - y" using xn1 by (simp add: x_def)
    have "32 \<le> (60 * (of_int n1 + 1) - y) * (of_int Py * 32)" using g1 by simp
    also have "\<dots> \<le> (60 * (of_int n1 + 1) - y) * of_int P"
      using PP d0 by (intro mult_left_mono) simp_all
    also have "\<dots> = 60 * ((of_int n1 + 1 - x) * of_int P)" by (simp add: x_def algebra_simps)
    finally have "32 \<le> 60 * ((of_int n1 + 1 - x) * of_int P)" .
    then show ?thesis by linarith
  qed
  have "x * of_int P < of_int ((n1 + 1) * P) - 1 / 2"
    using gap by (simp add: algebra_simps)
  then have "r < (n1 + 1) * P" unfolding r_def by (rule rhe_less)
  then have "(of_int r :: rat) < of_int ((n1 + 1) * P)" by (simp only: of_int_less_iff)
  then have "(of_int r :: rat) < (of_int n1 + 1) * of_int P" by simp
  then have upper: "nearest x < of_int n1 + 1" using Pp by (simp add: nx field_simps)
  from lower upper show ?thesis by (simp add: x_def n1_def)
qed

lemma is_double_iff: "is_double x = (nearest x = x \<and> \<bar>x\<bar> < 2 ^ 1024)"
  by (auto simp add: is_double_def fl_def Let_def)

lemma is_double_0: "is_double 0"
  by (simp add: is_double_iff nearest_def)

lemma is_double_int:
  assumes "0 \<le> n" and "n < 2 ^ 53"
  shows "is_double (of_int n)"
proof -
  have "(of_int n :: rat) < of_int (2 ^ 53)" using assms(2) by (simp only: of_int_less_iff)
  then have "\<bar>of_int n :: rat\<bar> < 2 ^ 53" using assms(1) by simp
  also have "(2::rat) ^ 53 < 2 ^ 1024" by (rule power_strict_increasing) simp_all
  finally show ?thesis using nearest_of_int [OF assms] by (simp only: is_double_iff simp_thms)
qed

lemma fl_small: "\<bar>x\<bar> < 2 ^ 54 \<Longrightarrow> fl x = Fin (nearest x)"
proof -
  assume "\<bar>x\<bar> < 2 ^ 54"
  then have "\<bar>nearest x\<bar> < 2 ^ 55" by (rule nearest_bound)
  also have "(2::rat) ^ 55 < 2 ^ 1024" by (rule power_strict_increasing) simp_all
  finally have "\<bar>nearest x\<bar> < 2 ^ 1024" .
  then have "\<not> 2 ^ 1024 \<le> nearest x" and "\<not> nearest x \<le> - (2 ^ 1024)" by linarith+
  then show ?thesis by (simp only: fl_def Let_def if_False)
qed

lemma is_double_nearest:
  assumes "0 < nearest x" and "\<bar>x\<bar> < 2 ^ 54"
  shows "is_double (nearest x)"
proof -
  have "0 < x" using assms(1) by (rule nearest_pos_imp)
  then have i: "nearest (nearest x) = nearest x" by (rule nearest_idem_pos)
  have "\<bar>nearest x\<bar> < 2 ^ 55" using assms(2) by (rule nearest_bound)
  also have "(2::rat) ^ 55 < 2 ^ 1024" by (rule power_strict_increasing) simp_all
  finally show ?thesis using i by (simp only: is_double_iff simp_thms)
qed

subsection \<open>The timer text\<close>

lemma padStart_zeroPad2: "padStart s 2 CHR ''0'' = zeroPad2 s"
  by (simp add: padStart_def zeroPad2_def)

lemma toFixed0_int:
  assumes "0 \<le> n" and "(of_int n :: rat) < 10 ^ 21"
  shows "toFixed0 (Fin (of_int n)) = Some (decimal n)"
proof -
  have "\<lfloor>(of_int n :: rat) + 1 / 2\<rfloor> = n" by linarith
  then show ?thesis using assms by simp
qed

lemma minutes_of_double:
  assumes "is_double y" and "0 \<le> y" and "y < 2 ^ 53"
  shows "toFixed0 (jfloor (jround (jdiv (Fin y) (Fin 60)))) = Some (decimal \<lfloor>y / 60\<rfloor>)"
proof -
  have dbl: "nearest y = y" using assms(1) by (simp add: is_double_iff)
  from floor_nearest_div60 [OF dbl assms(2,3)]
  have lo: "of_int \<lfloor>y / 60\<rfloor> \<le> nearest (y / 60)"
    and hi: "nearest (y / 60) < of_int \<lfloor>y / 60\<rfloor> + 1"
    by simp_all
  then have fl': "\<lfloor>nearest (y / 60)\<rfloor> = \<lfloor>y / 60\<rfloor>" by linarith
  have "\<bar>y / 60\<bar> < 2 ^ 54" using assms(2,3) by simp
  then have r: "fl (y / 60) = Fin (nearest (y / 60))" by (rule fl_small)
  have m0: "0 \<le> \<lfloor>y / 60\<rfloor>" using assms(2) by simp
  have "(of_int \<lfloor>y / 60\<rfloor> :: rat) \<le> y / 60" by (rule of_int_floor_le)
  also have "\<dots> < 10 ^ 21" using assms(3) by simp
  finally have m1: "(of_int \<lfloor>y / 60\<rfloor> :: rat) < 10 ^ 21" .
  show ?thesis using toFixed0_int [OF m0 m1] by (simp add: r fl')
qed

lemma seconds_of_time:
  assumes "0 \<le> y"
  shows "toFixed0 (jfloor (jmod (Fin y) (Fin 60)))
           = Some (decimal \<lfloor>y - 60 * of_int \<lfloor>y / 60\<rfloor>\<rfloor>)"
proof -
  define r where "r = y - 60 * of_int \<lfloor>y / 60\<rfloor>"
  have t: "trunc (y / 60) = \<lfloor>y / 60\<rfloor>" using assms by (simp add: trunc_def)
  have r0: "0 \<le> r" using of_int_floor_le [of "y / 60"] by (simp add: r_def)
  have "y / 60 < of_int \<lfloor>y / 60\<rfloor> + 1" by linarith
  then have r1: "r < 60" by (simp add: r_def)
  have s0: "0 \<le> \<lfloor>r\<rfloor>" using r0 by simp
  have "(of_int \<lfloor>r\<rfloor> :: rat) \<le> r" by (rule of_int_floor_le)
  then have s1: "(of_int \<lfloor>r\<rfloor> :: rat) < 10 ^ 21" using r1 by simp
  show ?thesis using toFixed0_int [OF s0 s1] by (simp add: t r_def)
qed

lemma formatTime_finite:
  assumes "duration (state c) = Fin d" and "0 \<le> d" and "d < 2 ^ 53"
    and "showRemainingTime (state c) = None"
    and "is_double (max 0 (min x d))"
  shows "formatTime c (Fin x) = Some (spec_mmss (max 0 (min x d)))"
proof -
  define y where "y = max 0 (min x d)"
  have y0: "0 \<le> y" and yd: "y \<le> d" using assms(2) by (auto simp add: y_def)
  have clamp: "jmin (jmax (default0 (Fin x)) (Fin 0)) (duration (state c)) = Fin y"
    using assms(1,2) by (auto simp add: jmin_def jmax_def default0_def y_def max_def min_def)
  have y53: "y < 2 ^ 53" using yd assms(3) by simp
  have yb: "is_double y" using assms(5) by (simp add: y_def)
  note minutes = minutes_of_double [OF yb y0 y53]
  note seconds = seconds_of_time [OF y0]
  show ?thesis
    unfolding formatTime_def Let_def clamp minutes seconds
    using assms(4) by (simp add: spec_mmss_def padStart_zeroPad2 y_def)
qed

lemma is_double_clamp:
  "is_double d \<Longrightarrow> 0 < x \<longrightarrow> is_double x \<Longrightarrow> is_double (max 0 (min x d))"
  by (auto simp add: max_def min_def is_double_0)

lemma calculateTime_finite:
  assumes "duration (state c) = Fin d" and "is_double d" and "0 \<le> d" and "d < 2 ^ 53"
    and "showRemainingTime (state c) = None"
    and "currentTime (state c) = Fin t" and "is_double t" and "\<bar>t\<bar> < 2 ^ 53"
  shows "calculateTime c =
         Some ((if showTimeRemaining (state c) then ''-'' else '''') @
               spec_mmss (max 0 (min (if showTimeRemaining (state c)
                                       then nearest (d - t) else t) d)))"
proof (cases "showTimeRemaining (state c)")
  case True
  have b: "\<bar>d - t\<bar> < 2 ^ 54" using assms(3,4,8) by simp
  have r: "jround (jsub (duration (state c)) (currentTime (state c))) = Fin (nearest (d - t))"
    using assms(1,6) fl_small [OF b] by (simp add: jsub_def)
  have "0 < nearest (d - t) \<longrightarrow> is_double (nearest (d - t))"
    using is_double_nearest [OF _ b] by simp
  then have "is_double (max 0 (min (nearest (d - t)) d))"
    using assms(2) by (simp add: is_double_clamp)
  from formatTime_finite [OF assms(1,3,4,5) this] True show ?thesis
    by (simp add: calculateTime_def Let_def r)
next
  case False
  have "is_double (max 0 (min t d))"
    using assms(2,7) by (simp add: is_double_clamp)
  from formatTime_finite [OF assms(1,3,4,5) this] False assms(6) show ?thesis
    by (simp add: calculateTime_def)
qed

lemma digit_in: "k < 10 \<Longrightarrow> digit k \<in> set ''0123456789''"
  unfolding digit_def by (rule nth_mem) simp

lemma decimal_digits: "set (decimal n) \<subseteq> set ''0123456789''"
proof (induction n rule: decimal.induct)
  case (1 n)
  show ?case
  proof (cases "n < 10")
    case True
    then have "nat n < 10" by simp
    then have "digit (nat n) \<in> set ''0123456789''" by (rule digit_in)
    with True show ?thesis by (subst decimal.simps) simp
  next
    case False
    have "nat (n mod 10) < 10" by simp
    then have "digit (nat (n mod 10)) \<in> set ''0123456789''" by (rule digit_in)
    with False "1.IH" show ?thesis by (subst decimal.simps) simp
  qed
qed

lemma decimal_nonempty: "decimal n \<noteq> []"
  by (subst decimal.simps) simp

lemma spec_mmss_head: "\<exists>h r. spec_mmss x = h # r \<and> h \<noteq> CHR ''-''"
proof -
  define m where "m = decimal \<lfloor>x / 60\<rfloor>"
  have ne: "m \<noteq> []" by (simp add: m_def decimal_nonempty)
  have dg: "set m \<subseteq> set ''0123456789''" by (simp only: m_def decimal_digits)
  have "zeroPad2 m \<noteq> [] \<and> set (zeroPad2 m) \<subseteq> set ''0123456789''"
    using ne dg by (auto simp add: zeroPad2_def)
  then obtain h r where z: "zeroPad2 m = h # r" and "h \<in> set ''0123456789''"
    by (cases "zeroPad2 m") auto
  then have "h \<noteq> CHR ''-''" by auto
  with z show ?thesis by (simp add: spec_mmss_def m_def [symmetric])
qed

lemma spec_mmss_0: "spec_mmss 0 = ''00:00''"
  by code_simp

lemma spec_mmss_75: "spec_mmss 75 = ''01:15''"
  by code_simp

lemma spec_mmss_45: "spec_mmss 45 = ''00:45''"
  by code_simp

lemma spec_mmss_75000: "spec_mmss 75000 = ''1250:00''"
  by code_simp

lemma spec_mmss_45000: "spec_mmss 45000 = ''750:00''"
  by code_simp

lemma is_double_numerals:
  "is_double 45" "is_double 75" "is_double 120"
  "is_double 45000" "is_double 75000" "is_double 120000"
  using is_double_int [of 45] is_double_int [of 75] is_double_int [of 120]
    is_double_int [of 45000] is_double_int [of 75000] is_double_int [of 120000]
  by simp_all

lemma nearest_75: "nearest 75 = 75"
  using nearest_of_int [of 75] by simp

lemma nearest_75000: "nearest 75000 = 75000"
  using nearest_of_int [of 75000] by simp

lemma secondsScenario_state:
  "duration (state secondsScenario) = Fin 120 \<and> currentTime (state secondsScenario) = Fin 45
   \<and> showRemainingTime (state secondsScenario) = None
   \<and> showTimeRemaining (state secondsScenario)"
  by (simp add: all_defs)

lemma millisScenario_state:
  "duration (state millisScenario) = Fin 120000
   \<and> currentTime (state millisScenario) = Fin 45000
   \<and> showRemainingTime (state millisScenario) = None
   \<and> showTimeRemaining (state millisScenario)"
  by (simp add: all_defs)

lemma toggleTimer_state:
  "state (toggleTimer c) = (state c)\<lparr> showTimeRemaining := \<not> showTimeRemaining (state c) \<rparr>"
  by (simp add: toggleTimer_def)

text \<open>
  Claim C1, as stated, fails: for duration 120000 and current time 45000 the timer shows
  \<open>-1250:00\<close> in remaining mode and \<open>750:00\<close> in elapsed mode, since the code divides the
  number it is given by 60. In remaining mode \<open>formatTime\<close> itself returns the digits
  without a sign; the sign is put in front by \<open>calculateTime\<close>.
\<close>

theorem timer_text_millis_counterexample:
  "duration (state millisScenario) = Fin 120000
   \<and> currentTime (state millisScenario) = Fin 45000
   \<and> showTimeRemaining (state millisScenario)
   \<and> calculateTime millisScenario = Some ''-1250:00''
   \<and> calculateTime millisScenario \<noteq> Some ''-01:15''
   \<and> formatTime millisScenario (Fin 75000) = Some ''1250:00''
   \<and> \<not> showTimeRemaining (state (toggleTimer millisScenario))
   \<and> calculateTime (toggleTimer millisScenario) = Some ''750:00''
   \<and> calculateTime (toggleTimer millisScenario) \<noteq> Some ''00:45''"
proof -
  note s = millisScenario_state
  note n = is_double_numerals
  have a: "calculateTime millisScenario = Some ''-1250:00''"
    using calculateTime_finite [of millisScenario 120000 45000] s n
    by (simp add: spec_mmss_75000 nearest_75000)
  have b: "calculateTime (toggleTimer millisScenario) = Some ''750:00''"
    using calculateTime_finite [of "toggleTimer millisScenario" 120000 45000] s n
    by (simp add: toggleTimer_state spec_mmss_45000)
  have c: "formatTime millisScenario (Fin 75000) = Some ''1250:00''"
    using formatTime_finite [of millisScenario 120000 75000] s n
    by (simp add: spec_mmss_75000)
  from a b c s show ?thesis by (simp add: toggleTimer_state)
qed

text \<open>
  Claim C1, amended. With the duration and the current time in the unit the code computes
  in (seconds: duration 120, current time 45), the timer shows \<open>-01:15\<close> in remaining mode
  and \<open>00:45\<close> in elapsed mode. In general, let the duration \<open>d\<close> and the current time \<open>t\<close>
  be doubles with \<open>0 \<le> d < 2^53\<close> and \<open>|t| < 2^53\<close>. Then \<open>formatTime\<close> clamps its argument,
  a double, to \<open>[0, d]\<close>, takes minutes \<open>floor (time / 60)\<close> and seconds
  \<open>floor (time mod 60)\<close> and pads each with zeros to width 2, and it formats 0 when it is
  given no argument. The timer display \<open>calculateTime\<close> formats the current time in elapsed
  mode and, in remaining mode, the double nearest to \<open>d - t\<close>, and puts \<open>-\<close> in front
  exactly when the mode is remaining time.
\<close>

theorem timer_text:
  assumes "duration (state c) = Fin d" and "is_double d" and "0 \<le> d" and "d < 2 ^ 53"
    and "showRemainingTime (state c) = None"
    and "currentTime (state c) = Fin t" and "is_double t" and "\<bar>t\<bar> < 2 ^ 53"
    and "is_double x"
  shows "formatTime c (Fin x) = Some (spec_mmss (max 0 (min x d)))
     \<and> formatTime c Undefined = Some ''00:00''
     \<and> calculateTime c =
         Some ((if showTimeRemaining (state c) then ''-'' else '''') @
               spec_mmss (max 0 (min (if showTimeRemaining (state c)
                                       then nearest (d - t) else t) d)))
     \<and> ((\<exists>r. calculateTime c = Some (CHR ''-'' # r)) = showTimeRemaining (state c))"
proof -
  have "is_double (max 0 (min x d))"
    using assms(2,9) by (simp add: is_double_clamp)
  note f = formatTime_finite [OF assms(1,3,4,5) this]
  have "is_double (max 0 (min 0 d))"
    using assms(2) by (simp add: is_double_clamp is_double_0)
  from formatTime_finite [OF assms(1,3,4,5) this]
  have "formatTime c (Fin 0) = Some ''00:00''"
    using assms(3) by (simp add: spec_mmss_0)
  then have u: "formatTime c Undefined = Some ''00:00''"
    by (simp add: formatTime_def default0_def)
  note a = calculateTime_finite [OF assms(1-8)]
  obtain h r
    where hr: "spec_mmss (max 0 (min (if showTimeRemaining (state c)
                                        then nearest (d - t) else t) d)) = h # r"
    and hm: "h \<noteq> CHR ''-''"
    using spec_mmss_head by blast
  have b: "(\<exists>r. calculateTime c = Some (CHR ''-'' # r)) = showTimeRemaining (state c)"
    using hm by (simp add: a hr)
  from f u a b show ?thesis by simp
qed

theorem timer_text_witness:
  "duration (state secondsScenario) = Fin 120 \<and> is_double 120
   \<and> (0::rat) \<le> 120 \<and> (120::rat) < 2 ^ 53
   \<and> showRemainingTime (state secondsScenario) = None
   \<and> currentTime (state secondsScenario) = Fin 45 \<and> is_double 45 \<and> \<bar>45::rat\<bar> < 2 ^ 53
   \<and> is_double 75
   \<and> showTimeRemaining (state secondsScenario)
   \<and> formatTime secondsScenario (Fin 75) = Some ''01:15''
   \<and> calculateTime secondsScenario = Some ''-01:15''
   \<and> \<not> showTimeRemaining (state (toggleTimer secondsScenario))
   \<and> calculateTime (toggleTimer secondsScenario) = Some ''00:45''"
proof -
  note s = secondsScenario_state
  note n = is_double_numerals
  have a: "calculateTime secondsScenario = Some ''-01:15''"
    and f: "formatTime secondsScenario (Fin 75) = Some ''01:15''"
    using timer_text [of secondsScenario 120 45 75] s n
    by (simp_all add: spec_mmss_75 nearest_75)
  have b: "calculateTime (toggleTimer secondsScenario) = Some ''00:45''"
    using timer_text [of "toggleTimer secondsScenario" 120 45 75] s n
    by (simp add: toggleTimer_state spec_mmss_45)
  from a b f s n show ?thesis by (simp add: toggleTimer_state)
qed

subsection \<open>Degenerate geometry\<close>

text \<open>
  The two converters divide without a guard. Where the divisor is 0 the result is \<open>NaN\<close>
  or an infinity, never a number; the result is 0 only where the other factor is 0 and
  the divisor is not.
\<close>

lemma converters_unguarded:
  "(seekerWidth (player c) = Fin 0 \<and> duration (state c) = Fin d \<and> d \<noteq> 0
      \<and> currentTime (state c) = Fin t \<longrightarrow> calculateSeekerPosition c = Fin 0)
   \<and> (duration (state c) = Fin 0 \<and> seekerWidth (player c) = Fin w \<and> w \<noteq> 0
      \<and> seekerPosition (state c) = Fin p \<longrightarrow> calculateTimeFromSeekerPosition c = Fin 0)
   \<and> (duration (state c) = Fin 0 \<and> currentTime (state c) = Fin t \<longrightarrow>
        (\<forall>r. calculateSeekerPosition c \<noteq> Fin r))
   \<and> (seekerWidth (player c) = Fin 0 \<and> seekerPosition (state c) = Fin p \<longrightarrow>
        (\<forall>r. calculateTimeFromSeekerPosition c \<noteq> Fin r))"
proof -
  have a: "\<And>x r. jmul x (jdiv (Fin t) (Fin 0)) \<noteq> Fin r"
    subgoal for x r by (cases x) auto
    done
  have b: "\<And>x r. jmul x (jdiv (Fin p) (Fin 0)) \<noteq> Fin r"
    subgoal for x r by (cases x) auto
    done
  have c1: "seekerWidth (player c) = Fin 0 \<and> duration (state c) = Fin d \<and> d \<noteq> 0
      \<and> currentTime (state c) = Fin t \<longrightarrow> calculateSeekerPosition c = Fin 0"
    by (simp add: calculateSeekerPosition_def)
  have c2: "duration (state c) = Fin 0 \<and> seekerWidth (player c) = Fin w \<and> w \<noteq> 0
      \<and> seekerPosition (state c) = Fin p \<longrightarrow> calculateTimeFromSeekerPosition c = Fin 0"
    by (simp add: calculateTimeFromSeekerPosition_def)
  have c3: "duration (state c) = Fin 0 \<and> currentTime (state c) = Fin t \<longrightarrow>
        (\<forall>r. calculateSeekerPosition c \<noteq> Fin r)"
    by (simp add: calculateSeekerPosition_def a del: jdiv.simps jmul.simps)
  have c4: "seekerWidth (player c) = Fin 0 \<and> seekerPosition (state c) = Fin p \<longrightarrow>
        (\<forall>r. calculateTimeFromSeekerPosition c \<noteq> Fin r)"
    by (simp add: calculateTimeFromSeekerPosition_def b del: jdiv.simps jmul.simps)
  from c1 c2 c3 c4 show ?thesis by blast
qed

text \<open>
  Claim C2 asks that the converters return 0 when the track width or the duration is 0.
  The code does not: before the video is loaded the duration is 0, and a progress event at
  time 0 computes \<open>300 * (0 / 0)\<close>, which is \<open>NaN\<close>, and stores it as the position, fill
  width and offset of the seek handle; with a track of width 0 the time computed from the
  handle at 0 is \<open>200 * (0 / 0)\<close>, again \<open>NaN\<close>.
\<close>

theorem degenerate_geometry_yields_NaN:
  "duration (state beforeLoad) = Fin 0
   \<and> currentTime (state beforeLoad) = Fin 0
   \<and> seekerWidth (player beforeLoad) = Fin 300
   \<and> calculateSeekerPosition beforeLoad = NaN
   \<and> calculateSeekerPosition beforeLoad \<noteq> Fin 0
   \<and> seekerPosition (state (onProgress (Fin 0) beforeLoad)) = NaN
   \<and> seekerOffset (state (onProgress (Fin 0) beforeLoad)) = NaN
   \<and> seekerWidth (player zeroTrack) = Fin 0
   \<and> duration (state zeroTrack) = Fin 200
   \<and> seekerPosition (state zeroTrack) = Fin 0
   \<and> calculateTimeFromSeekerPosition zeroTrack = NaN
   \<and> calculateTimeFromSeekerPosition zeroTrack \<noteq> Fin 0"
  by (simp add: all_defs)

subsection \<open>The auto-hide timer\<close>

text \<open>
  Claim C3 asks that at most one auto-hide timer is pending and that arming cancels the
  timer armed before. \<open>setControlTimeout\<close> does not cancel: after the controls were shown
  by a tap and the video then finished loading, two timers are pending and only the
  second is known by its handle. A cancel then removes the second only, and the first
  still fires 15000 ms after it was armed and hides the controls. \<open>resetControlTimeout\<close>,
  which the buttons of the controls use, cancels before it arms and leaves one timer.
\<close>

theorem orphaned_timer_fires_after_cancel:
  "timers doubleArmed = [(1, 15000), (2, 15000)]
   \<and> controlTimeout (player doubleArmed) = Some 2
   \<and> timers (clearControlTimeout doubleArmed) = [(1, 15000)]
   \<and> showControls (state (clearControlTimeout doubleArmed))
   \<and> \<not> showControls (state (elapse 15000 (clearControlTimeout doubleArmed)))
   \<and> timers (resetControlTimeout (toggleControls (toggleControls mountedDefault)))
       = [(2, 15000)]"
  by (simp add: all_defs resetControlTimeout_def)

subsection \<open>Dragging the seek handle\<close>







subsection \<open>Position to time and back\<close>

lemma dragging_120_state:
  "duration (state (dragging 120)) = Fin 200 \<and> seekerWidth (player (dragging 120)) = Fin 300
   \<and> seekerPosition (state (dragging 120)) = Fin 120"
  by (simp add: all_defs)

text \<open>
  Claim C6. For a duration \<open>D > 0\<close> and a seek track of width \<open>W > 0\<close>, let a position \<open>p\<close>
  in \<open>[0, W]\<close> be converted to a time. In every state with that duration and track width
  whose current time is that time, whatever its seek handle shows, the time-to-position
  converter gives \<open>p\<close> again, exactly, over exact rational arithmetic; in particular it
  does so after \<open>seekTo\<close> has stored the time as the current time.
\<close>

theorem seek_round_trip:
  assumes "duration (state c) = Fin D" and "0 < D"
    and "seekerWidth (player c) = Fin W" and "0 < W"
    and "seekerPosition (state c) = Fin p" and "0 \<le> p" and "p \<le> W"
    and "duration (state c') = Fin D" and "seekerWidth (player c') = Fin W"
    and "currentTime (state c') = calculateTimeFromSeekerPosition c"
  shows "calculateTimeFromSeekerPosition c = Fin (D * (p / W))
     \<and> calculateSeekerPosition c' = Fin p
     \<and> calculateSeekerPosition (seekTo (calculateTimeFromSeekerPosition c) c) = Fin p"
proof -
  have t: "calculateTimeFromSeekerPosition c = Fin (D * (p / W))"
    using assms(1,3,4,5) by (simp add: calculateTimeFromSeekerPosition_def)
  have a: "calculateSeekerPosition c' = Fin p"
    using assms(2,4,8,9,10) by (simp add: calculateSeekerPosition_def t)
  have b: "calculateSeekerPosition (seekTo (calculateTimeFromSeekerPosition c) c) = Fin p"
    using assms(1,2,3,4)
    by (simp add: calculateSeekerPosition_def seekTo_def Let_def default0_Fin t)
  from t a b show ?thesis by simp
qed

lemma progressWhileDragging_state:
  "duration (state progressWhileDragging) = Fin 200
   \<and> seekerWidth (player progressWhileDragging) = Fin 300
   \<and> currentTime (state progressWhileDragging) = Fin 80
   \<and> seekerPosition (state progressWhileDragging) = Fin 7"
  by (simp add: all_defs)

lemma dragging_120_time: "calculateTimeFromSeekerPosition (dragging 120) = Fin 80"
  by (simp add: all_defs)

theorem seek_round_trip_witness:
  "duration (state (dragging 120)) = Fin 200 \<and> (0::rat) < 200
   \<and> seekerWidth (player (dragging 120)) = Fin 300 \<and> (0::rat) < 300
   \<and> seekerPosition (state (dragging 120)) = Fin 120 \<and> (0::rat) \<le> 120 \<and> (120::rat) \<le> 300
   \<and> duration (state progressWhileDragging) = Fin 200
   \<and> seekerWidth (player progressWhileDragging) = Fin 300
   \<and> currentTime (state progressWhileDragging) = calculateTimeFromSeekerPosition (dragging 120)
   \<and> seekerPosition (state progressWhileDragging) = Fin 7
   \<and> calculateTimeFromSeekerPosition (dragging 120) = Fin 80
   \<and> calculateSeekerPosition progressWhileDragging = Fin 120
   \<and> calculateSeekerPosition
        (seekTo (calculateTimeFromSeekerPosition (dragging 120)) (dragging 120)) = Fin 120"
proof -
  have h1: "duration (state (dragging 120)) = Fin 200"
    and h3: "seekerWidth (player (dragging 120)) = Fin 300"
    and h5: "seekerPosition (state (dragging 120)) = Fin 120"
    by (simp_all add: dragging_120_state)
  have h8: "duration (state progressWhileDragging) = Fin 200"
    and h9: "seekerWidth (player progressWhileDragging) = Fin 300"
    and h10: "currentTime (state progressWhileDragging)
                = calculateTimeFromSeekerPosition (dragging 120)"
    and p7: "seekerPosition (state progressWhileDragging) = Fin 7"
    by (simp_all add: progressWhileDragging_state dragging_120_time)
  have h2: "(0::rat) < 200" and h4: "(0::rat) < 300"
    and h6: "(0::rat) \<le> 120" and h7: "(120::rat) \<le> 300"
    by simp_all
  note t80 = dragging_120_time
  from seek_round_trip [OF h1 h2 h3 h4 h5 h6 h7 h8 h9 h10] h1 h2 h3 h4 h5 h6 h7 h8 h9 h10 p7 t80
  show ?thesis by blast
qed

subsection \<open>Releasing a seek drag\<close>

lemma dragging_300_time: "calculateTimeFromSeekerPosition (dragging 300) = Fin 200"
  by (simp add: all_defs)

lemma dragging_duration: "duration (state (dragging p)) = Fin 200"
  by (simp add: all_defs)

lemma dragging_loading: "\<not> loading (state (dragging p))"
  by (simp add: all_defs)

text \<open>
  Claim C4. On the release of a seek drag, let \<open>time\<close> be the time computed from the
  position of the seek handle. If \<open>time \<ge> duration\<close> and the video is not loading, then
  \<open>paused\<close> becomes true and the \<open>onEnd\<close> callback of the host is called, and no seek is
  requested of the video (the current time, the timers and the \<open>seeking\<close> flag stay as they
  are). Otherwise the seek is committed: \<open>currentTime\<close> becomes \<open>time\<close>, \<open>seek(time)\<close> is
  called on the video, a new auto-hide timer is armed, and \<open>seeking\<close> is cleared.
\<close>

theorem seek_release_ends_or_commits:
  "(jge (calculateTimeFromSeekerPosition c) (duration (state c)) \<and> \<not> loading (state c) \<longrightarrow>
      paused (state (seek_onPanResponderRelease c))
      \<and> trace (seek_onPanResponderRelease c) =
          trace c @ (if props_onEnd (props c) then [OnEnd] else [])
      \<and> currentTime (state (seek_onPanResponderRelease c)) = currentTime (state c)
      \<and> timers (seek_onPanResponderRelease c) = timers c
      \<and> seeking (state (seek_onPanResponderRelease c)) = seeking (state c))
   \<and> (\<not> (jge (calculateTimeFromSeekerPosition c) (duration (state c)) \<and> \<not> loading (state c)) \<longrightarrow>
      currentTime (state (seek_onPanResponderRelease c)) = calculateTimeFromSeekerPosition c
      \<and> trace (seek_onPanResponderRelease c) =
          trace c @ [Seek (calculateTimeFromSeekerPosition c)]
      \<and> timers (seek_onPanResponderRelease c) =
          timers c @ [(nextTimer c, now c + controlTimeoutDelay (player c))]
      \<and> controlTimeout (player (seek_onPanResponderRelease c)) = Some (nextTimer c)
      \<and> \<not> seeking (state (seek_onPanResponderRelease c))
      \<and> paused (state (seek_onPanResponderRelease c)) = paused (state c))"
  by (simp add: seek_onPanResponderRelease_def Let_def seekTo_def setControlTimeout_def
      calculateTimeFromSeekerPosition_def default0_jmul)

theorem seek_release_ends_or_commits_witness:
  "(jge (calculateTimeFromSeekerPosition (dragging 300)) (duration (state (dragging 300)))
      \<and> \<not> loading (state (dragging 300)))
   \<and> paused (state (seek_onPanResponderRelease (dragging 300)))
   \<and> timers (seek_onPanResponderRelease (dragging 300)) = timers (dragging 300)
   \<and> \<not> (jge (calculateTimeFromSeekerPosition (dragging 120)) (duration (state (dragging 120)))
      \<and> \<not> loading (state (dragging 120)))
   \<and> currentTime (state (seek_onPanResponderRelease (dragging 120))) = Fin 80
   \<and> trace (seek_onPanResponderRelease (dragging 120)) = trace (dragging 120) @ [Seek (Fin 80)]
   \<and> \<not> seeking (state (seek_onPanResponderRelease (dragging 120)))"
proof -
  have h1: "jge (calculateTimeFromSeekerPosition (dragging 300)) (duration (state (dragging 300)))
      \<and> \<not> loading (state (dragging 300))"
    by (simp add: dragging_300_time dragging_duration dragging_loading jge_def)
  have h2: "\<not> (jge (calculateTimeFromSeekerPosition (dragging 120)) (duration (state (dragging 120)))
      \<and> \<not> loading (state (dragging 120)))"
    by (simp add: dragging_120_time dragging_duration jge_def)
  from h1 h2 seek_release_ends_or_commits [of "dragging 300"]
    seek_release_ends_or_commits [of "dragging 120"]
  show ?thesis by (simp add: dragging_120_time)
qed

subsection \<open>The seeking flag after an end-of-video release\<close>

lemma seek_grant_seeking: "seeking (state (seek_onPanResponderGrant c))"
  by (simp add: seek_onPanResponderGrant_def Let_def)

lemma seek_move_seeking:
  "seeking (state (seek_onPanResponderMove dx c)) = seeking (state c)"
  by (simp add: seek_onPanResponderMove_def setSeekerPosition_def Let_def)

lemma seek_moves_seeking:
  "seeking (state (fold seek_onPanResponderMove dxs c)) = seeking (state c)"
  by (induction dxs arbitrary: c) (simp_all add: seek_move_seeking)

lemma onProgress_while_seeking:
  "seeking (state c) \<Longrightarrow> state (onProgress t c) = (state c)\<lparr> currentTime := t \<rparr>"
  by (simp add: onProgress_def Let_def)

lemma onProgress_list_while_seeking:
  "seeking (state c) \<Longrightarrow>
     seeking (state (fold onProgress ts c))
     \<and> seekerPosition (state (fold onProgress ts c)) = seekerPosition (state c)
     \<and> seekerFillWidth (state (fold onProgress ts c)) = seekerFillWidth (state c)
     \<and> seekerOffset (state (fold onProgress ts c)) = seekerOffset (state c)"
proof (induction ts arbitrary: c)
  case Nil
  then show ?case by simp
next
  case (Cons t ts)
  have "seeking (state (onProgress t c))"
    using Cons.prems by (simp add: onProgress_while_seeking)
  from Cons.IH [OF this] Cons.prems show ?case
    by (simp add: onProgress_while_seeking)
qed

text \<open>
  Claim C10. When the release of a seek drag takes the end-of-video branch (computed time
  \<open>\<ge> duration\<close>, not loading), the \<open>seeking\<close> flag, set when the drag was granted, is still
  true after the release, and every progress callback that follows leaves the seek bar
  alone: it keeps the flag and the position, fill width and offset of the seek handle.
\<close>

theorem end_release_leaves_seeking:
  assumes "c = fold seek_onPanResponderMove dxs (seek_onPanResponderGrant c0)"
    and "jge (calculateTimeFromSeekerPosition c) (duration (state c))"
    and "\<not> loading (state c)"
  shows "seeking (state (seek_onPanResponderRelease c))
     \<and> (\<forall>ts. seeking (state (fold onProgress ts (seek_onPanResponderRelease c)))
          \<and> seekerPosition (state (fold onProgress ts (seek_onPanResponderRelease c)))
              = seekerPosition (state c)
          \<and> seekerFillWidth (state (fold onProgress ts (seek_onPanResponderRelease c)))
              = seekerFillWidth (state c)
          \<and> seekerOffset (state (fold onProgress ts (seek_onPanResponderRelease c)))
              = seekerOffset (state c))"
proof -
  have s: "seeking (state c)"
    using assms(1) by (simp add: seek_moves_seeking seek_grant_seeking)
  have r: "state (seek_onPanResponderRelease c) = (state c)\<lparr> paused := True \<rparr>"
    using assms(2,3) by (simp add: seek_onPanResponderRelease_def Let_def)
  have s': "seeking (state (seek_onPanResponderRelease c))"
    using s r by simp
  from onProgress_list_while_seeking [OF s'] s' r show ?thesis
    by simp
qed

theorem end_release_leaves_seeking_witness:
  "dragging 300 = fold seek_onPanResponderMove [Fin 300] (seek_onPanResponderGrant (playing 0))
   \<and> jge (calculateTimeFromSeekerPosition (dragging 300)) (duration (state (dragging 300)))
   \<and> \<not> loading (state (dragging 300))
   \<and> seeking (state (seek_onPanResponderRelease (dragging 300)))
   \<and> seeking (state (fold onProgress [Fin 10, Fin 20] (seek_onPanResponderRelease (dragging 300))))
   \<and> seekerPosition (state (fold onProgress [Fin 10, Fin 20]
        (seek_onPanResponderRelease (dragging 300)))) = seekerPosition (state (dragging 300))"
proof -
  have h1: "dragging 300
      = fold seek_onPanResponderMove [Fin 300] (seek_onPanResponderGrant (playing 0))"
    by (simp add: dragging_def)
  have h2: "jge (calculateTimeFromSeekerPosition (dragging 300)) (duration (state (dragging 300)))"
    by (simp add: dragging_300_time dragging_duration jge_def)
  have h3: "\<not> loading (state (dragging 300))"
    by (rule dragging_loading)
  from end_release_leaves_seeking [OF h1 h2 h3] h1 h2 h3 show ?thesis
    by blast
qed

subsection \<open>Volume and mute\<close>

text \<open>
  Claim C7. In every move of a volume drag the volume is computed from the position of
  the handle, and in the same update \<open>muted\<close> becomes true when that volume is at most 0
  and false when it is greater than 0.
\<close>

theorem volume_move_couples_mute:
  "(jle (volume (state (volume_onPanResponderMove dx c))) (Fin 0) \<longrightarrow>
      muted (state (volume_onPanResponderMove dx c)))
   \<and> (jgt (volume (state (volume_onPanResponderMove dx c))) (Fin 0) \<longrightarrow>
      \<not> muted (state (volume_onPanResponderMove dx c)))
   \<and> volume (state (volume_onPanResponderMove dx c)) =
       jdiv (volumePosition (state (volume_onPanResponderMove dx c))) (volumeWidth (player c))"
  by (auto simp add: volume_onPanResponderMove_def Let_def calculateVolumeFromVolumePosition_def
      setVolumePosition_def dest: jgt_not_jle)

theorem volume_move_couples_mute_witness:
  "jle (volume (state (volume_onPanResponderMove (Fin (- 200)) mountedDefault))) (Fin 0)
   \<and> muted (state (volume_onPanResponderMove (Fin (- 200)) mountedDefault))
   \<and> jgt (volume (state (volume_onPanResponderMove (Fin (- 30)) mountedDefault))) (Fin 0)
   \<and> \<not> muted (state (volume_onPanResponderMove (Fin (- 30)) mountedDefault))"
proof -
  have h1: "jle (volume (state (volume_onPanResponderMove (Fin (- 200)) mountedDefault))) (Fin 0)"
    by (simp add: all_defs)
  have h2: "jgt (volume (state (volume_onPanResponderMove (Fin (- 30)) mountedDefault))) (Fin 0)"
    by (simp add: all_defs)
  from h1 h2 volume_move_couples_mute [of "Fin (- 200)" mountedDefault]
    volume_move_couples_mute [of "Fin (- 30)" mountedDefault]
  show ?thesis by blast
qed

subsection \<open>The range of the volume\<close>

lemma mountedDefault_volume_geometry:
  "volumeWidth (player mountedDefault) = Fin 150 \<and> iconOffset (player mountedDefault) = Fin 0
   \<and> volumeOffset (state mountedDefault) = Fin 150"
  by (simp add: all_defs)

text \<open>
  Claim C8, as stated, fails: the handle of the volume slider is clamped at the track
  width plus 9, so a drag to the right end of the 150 pixel track gives the volume
  \<open>159 / 150\<close>, which is greater than 1.
\<close>

theorem volume_exceeds_one_counterexample:
  "volume (state (volume_onPanResponderMove (Fin 20) mountedDefault)) = Fin (53 / 50)
   \<and> jgt (volume (state (volume_onPanResponderMove (Fin 20) mountedDefault))) (Fin 1)"
  by (simp add: all_defs)

text \<open>
  Claim C8, amended. After every move of a volume drag (track width \<open>w > 0\<close>, icon offset
  \<open>i \<ge> 0\<close>, offset and delta any numbers) the volume is the clamped handle position
  \<open>clamp (offset + d, 0, w + 9) + i\<close> divided by \<open>w\<close>, and lies in \<open>[0, (w + 9 + i) / w]\<close>;
  for the track of the component, 150 pixels wide with icon offset 0, that is
  \<open>[0, 1.06]\<close>.
\<close>

theorem volume_move_bounded:
  assumes "volumeWidth (player c) = Fin w" and "0 < w"
    and "iconOffset (player c) = Fin i" and "0 \<le> i"
    and "volumeOffset (state c) = Fin off"
  shows "volume (state (volume_onPanResponderMove (Fin d) c))
           = Fin ((max 0 (min (off + d) (w + 9)) + i) / w)
     \<and> jle (Fin 0) (volume (state (volume_onPanResponderMove (Fin d) c)))
     \<and> jle (volume (state (volume_onPanResponderMove (Fin d) c))) (Fin ((w + 9 + i) / w))"
proof -
  have k: "constrainToVolumeMinMax c (Fin (off + d)) = Fin (max 0 (min (off + d) (w + 9)))"
    using assms(1,2)
    by (auto simp add: constrainToVolumeMinMax_def Let_def default0_def jge_def max_def min_def)
  have v: "volume (state (volume_onPanResponderMove (Fin d) c))
           = Fin ((max 0 (min (off + d) (w + 9)) + i) / w)"
    using assms k
    by (simp add: volume_onPanResponderMove_def setVolumePosition_def Let_def default0_Fin
        calculateVolumeFromVolumePosition_def)
  have lo: "0 \<le> (max 0 (min (off + d) (w + 9)) + i) / w"
    using assms(2,4) by simp
  have "max 0 (min (off + d) (w + 9)) + i \<le> w + 9 + i"
    using assms(2) by simp
  then have hi: "(max 0 (min (off + d) (w + 9)) + i) / w \<le> (w + 9 + i) / w"
    using assms(2) by (simp add: divide_right_mono)
  from v lo hi show ?thesis by simp
qed

theorem volume_move_bounded_witness:
  "volumeWidth (player mountedDefault) = Fin 150 \<and> (0::rat) < 150
   \<and> iconOffset (player mountedDefault) = Fin 0 \<and> (0::rat) \<le> 0
   \<and> volumeOffset (state mountedDefault) = Fin 150
   \<and> volume (state (volume_onPanResponderMove (Fin (- 60)) mountedDefault)) = Fin (3 / 5)
   \<and> jle (volume (state (volume_onPanResponderMove (Fin 500) mountedDefault))) (Fin (53 / 50))"
proof -
  have h1: "volumeWidth (player mountedDefault) = Fin 150"
    and h3: "iconOffset (player mountedDefault) = Fin 0"
    and h5: "volumeOffset (state mountedDefault) = Fin 150"
    by (simp_all add: mountedDefault_volume_geometry)
  have h2: "(0::rat) < 150" and h4: "(0::rat) \<le> 0" by simp_all
  note t = volume_move_bounded [OF h1 h2 h3 h4 h5]
  have a: "volume (state (volume_onPanResponderMove (Fin (- 60)) mountedDefault)) = Fin (3 / 5)"
    using t [of "- 60"] by simp
  have b: "jle (volume (state (volume_onPanResponderMove (Fin 500) mountedDefault)))
             (Fin (53 / 50))"
    using t [of 500] by simp
  from a b h1 h3 h5 show ?thesis by simp
qed

subsection \<open>Errors of the video\<close>

text \<open>
  Claim C9. On an error event of the video: when the host supplies an error handler, the
  handler is called and the state of the component is unchanged; when it supplies none,
  the state changes to \<open>error = true\<close>, \<open>loading = false\<close> and in nothing else, and
  nothing is retried: no call leaves the component and no timer is created.
\<close>

theorem onError_delegates_or_absorbs:
  "(props_onError (props c) \<longrightarrow>
      onError c = c\<lparr> trace := trace c @ [OnError] \<rparr> \<and> state (onError c) = state c)
   \<and> (\<not> props_onError (props c) \<longrightarrow>
      onError c = c\<lparr> state := (state c)\<lparr> error := True, loading := False \<rparr> \<rparr>
      \<and> error (state (onError c)) \<and> \<not> loading (state (onError c))
      \<and> trace (onError c) = trace c \<and> timers (onError c) = timers c)"
  by (simp add: onError_def)

theorem onError_delegates_or_absorbs_witness:
  "props_onError (props withErrorHandler)
   \<and> state (onError withErrorHandler) = state withErrorHandler
   \<and> trace (onError withErrorHandler) = trace withErrorHandler @ [OnError]
   \<and> \<not> props_onError (props mountedDefault)
   \<and> error (state (onError mountedDefault))
   \<and> \<not> loading (state (onError mountedDefault))"
proof -
  have h1: "props_onError (props withErrorHandler)"
    by (simp add: all_defs)
  have h2: "\<not> props_onError (props mountedDefault)"
    by (simp add: all_defs)
  have "trace (onError withErrorHandler) = trace withErrorHandler @ [OnError]"
    using h1 onError_delegates_or_absorbs [of withErrorHandler] by simp
  with h1 h2 onError_delegates_or_absorbs [of withErrorHandler]
    onError_delegates_or_absorbs [of mountedDefault]
  show ?thesis by blast
qed

end
